theory Spec2Isabelle
  imports Main
begin

section \<open>JavaScript values and strings\<close>

text \<open>
  The module under study is \<^verbatim>\<open>src/query-builder/QueryBuilder.ts\<close>.  Strings are lists of
  8-bit characters; the line terminators of the regular-expression engine that exist in
  this alphabet are LF and CR.  Numbers are only stored and printed here, never computed
  with, so integer-valued numbers stand for them: the integers of magnitude below
  \<open>10\<^sup>2\<^sup>1\<close>, which JavaScript prints in full (larger numbers print in exponent form and
  are outside the model, like fractions and \<^verbatim>\<open>NaN\<close>).  A function value is kept as an opaque
  token (its source text).  The field \<^verbatim>\<open>value\<close> of a find operator is called
  \<open>operatorValue\<close> here.
\<close>

datatype jsvalue =
    JNull
  | JUndefined
  | JBool bool
  | JNumber int
  | JString string
  | JArray "jsvalue list"
  | JObject "(string \<times> jsvalue) list"
  | JFunction string
  | JFindOperator findOperator
and findOperator =
  FindOperator
    (type: string)
    (operatorValue: jsvalue)
    (useParameter: bool)
    (multipleParameters: bool)
    (child: "findOperator option")
    (getSql: "(string \<Rightarrow> string) option")
    (objectLiteralParameters: "(string \<times> jsvalue) list option")

datatype error =
    TypeError
  | Error string
  | EntityColumnNotFound string

text \<open>\<^verbatim>\<open>Array.prototype.join\<close> on strings.\<close>

fun join :: "string \<Rightarrow> string list \<Rightarrow> string" where
  "join sep [] = []"
| "join sep [x] = x"
| "join sep (x # y # ys) = x @ sep @ join sep (y # ys)"

text \<open>Decimal rendering of an array index, as string concatenation with a number gives it.\<close>

definition digit :: "nat \<Rightarrow> char" where
  "digit d = ''0123456789'' ! d"

function showNat :: "nat \<Rightarrow> string" where
  "showNat n = (if n < 10 then [digit n] else showNat (n div 10) @ [digit (n mod 10)])"
  by pat_completeness auto
termination
  by (relation "measure id") auto

declare showNat.simps [simp del]

definition showInt :: "int \<Rightarrow> string" where
  "showInt i = (if i < 0 then CHR ''-'' # showNat (nat (- i)) else showNat (nat i))"

text \<open>
  The string a template literal substitutes for a value (\<^verbatim>\<open>ToString\<close>): an array prints
  its elements joined by commas, with \<^verbatim>\<open>null\<close> and \<^verbatim>\<open>undefined\<close> elements empty; any
  other object prints as \<^verbatim>\<open>[object Object]\<close>.
\<close>

fun toString :: "jsvalue \<Rightarrow> string"
  and elementString :: "jsvalue \<Rightarrow> string" where
  "toString JNull = ''null''"
| "toString JUndefined = ''undefined''"
| "toString (JBool b) = (if b then ''true'' else ''false'')"
| "toString (JNumber i) = showInt i"
| "toString (JString s) = s"
| "toString (JArray vs) = join '','' (map elementString vs)"
| "toString (JObject kvs) = ''[object Object]''"
| "toString (JFunction src) = src"
| "toString (JFindOperator operator) = ''[object Object]''"
| "elementString JNull = []"
| "elementString JUndefined = []"
| "elementString v = toString v"

section \<open>The driver and the operator translator\<close>

datatype driverType =
  PostgresDriver | CockroachDriver | SqlServerDriver | OracleDriver | SqljsDriver | OtherDriver

text \<open>
  The driver is an external collaborator: its identifier escaping and its placeholder
  format are parameters of the model.
\<close>

record driver =
  driverType :: driverType
  driver_escape :: "string \<Rightarrow> string"
  createParameter :: "string \<Rightarrow> nat \<Rightarrow> string"

text \<open>\<^verbatim>\<open>parameters[i]\<close> inside a template literal: a missing element prints as \<^verbatim>\<open>undefined\<close>.\<close>

definition parameterAt :: "string list \<Rightarrow> nat \<Rightarrow> string" where
  "parameterAt parameters i = (if i < length parameters then parameters ! i else ''undefined'')"

text \<open>\<^verbatim>\<open>computeFindOperatorExpression\<close>: the switch over \<^verbatim>\<open>operator.type\<close>, in source order.\<close>

function computeFindOperatorExpression ::
  "driver \<Rightarrow> findOperator \<Rightarrow> string \<Rightarrow> string list \<Rightarrow> error + string" where
  "computeFindOperatorExpression drv operator aliasPath parameters =
    (if type operator = ''not'' then
       (case child operator of
          Some c \<Rightarrow>
            (case computeFindOperatorExpression drv c aliasPath parameters of
               Inl e \<Rightarrow> Inl e
             | Inr s \<Rightarrow> Inr (''NOT('' @ s @ '')''))
        | None \<Rightarrow> Inr (aliasPath @ '' != '' @ parameterAt parameters 0))
     else if type operator = ''lessThan'' then
       Inr (aliasPath @ '' < '' @ parameterAt parameters 0)
     else if type operator = ''lessThanOrEqual'' then
       Inr (aliasPath @ '' <= '' @ parameterAt parameters 0)
     else if type operator = ''moreThan'' then
       Inr (aliasPath @ '' > '' @ parameterAt parameters 0)
     else if type operator = ''moreThanOrEqual'' then
       Inr (aliasPath @ '' >= '' @ parameterAt parameters 0)
     else if type operator = ''equal'' then
       Inr (aliasPath @ '' = '' @ parameterAt parameters 0)
     else if type operator = ''ilike'' then
       (if driverType drv = PostgresDriver \<or> driverType drv = CockroachDriver
        then Inr (aliasPath @ '' ILIKE '' @ parameterAt parameters 0)
        else Inr (''UPPER('' @ aliasPath @ '') LIKE UPPER('' @ parameterAt parameters 0 @ '')''))
     else if type operator = ''like'' then
       Inr (aliasPath @ '' LIKE '' @ parameterAt parameters 0)
     else if type operator = ''between'' then
       Inr (aliasPath @ '' BETWEEN '' @ parameterAt parameters 0
              @ '' AND '' @ parameterAt parameters 1)
     else if type operator = ''in'' then
       (if length parameters = 0 then Inr ''0=1''
        else Inr (aliasPath @ '' IN ('' @ join '', '' parameters @ '')''))
     else if type operator = ''any'' then
       Inr (aliasPath @ '' = ANY('' @ parameterAt parameters 0 @ '')'')
     else if type operator = ''isNull'' then
       Inr (aliasPath @ '' IS NULL'')
     else if type operator = ''raw'' then
       (case getSql operator of
          Some f \<Rightarrow> Inr (f aliasPath)
        | None \<Rightarrow> Inr (aliasPath @ '' = '' @ toString (operatorValue operator)))
     else Inl TypeError)"
  by pat_completeness auto
termination
  by (relation "measure (\<lambda>(drv, operator, aliasPath, parameters). size operator)")
     (auto, case_tac operator, auto)

declare computeFindOperatorExpression.simps [simp del]


section \<open>Plain objects\<close>

text \<open>
  A plain object is the list of its own properties in insertion order.  Assigning to an
  existing key keeps the key's position; assigning to \<^verbatim>\<open>__proto__\<close> reaches the inherited
  accessor and creates no own property.  \<^verbatim>\<open>Object.keys\<close> lists the array-index keys first,
  in ascending numeric order, and then the other keys in insertion order.
\<close>

type_synonym 'v jsobject = "(string \<times> 'v) list"

definition setProperty :: "'v jsobject \<Rightarrow> string \<Rightarrow> 'v \<Rightarrow> 'v jsobject" where
  "setProperty obj k v =
     (if k = ''__proto__'' then obj
      else if k \<in> set (map fst obj) then map (\<lambda>(k', v'). if k' = k then (k', v) else (k', v')) obj
      else obj @ [(k, v)])"

definition isDigit :: "char \<Rightarrow> bool" where
  "isDigit c = (c \<in> set ''0123456789'')"

definition parseIndex :: "string \<Rightarrow> int" where
  "parseIndex ds = foldl (\<lambda>n c. 10 * n + (of_char c - 48)) 0 ds"

definition isArrayIndex :: "string \<Rightarrow> bool" where
  "isArrayIndex k =
     (k \<noteq> [] \<and> list_all isDigit k \<and> (k = ''0'' \<or> hd k \<noteq> CHR ''0'') \<and> parseIndex k < 4294967295)"

definition objectKeys :: "'v jsobject \<Rightarrow> string list" where
  "objectKeys obj =
     sort_key parseIndex (filter isArrayIndex (map fst obj))
       @ filter (\<lambda>k. \<not> isArrayIndex k) (map fst obj)"

definition getProperty :: "jsvalue jsobject \<Rightarrow> string \<Rightarrow> jsvalue" where
  "getProperty obj k = (case map_of obj k of Some v \<Rightarrow> v | None \<Rightarrow> JUndefined)"

text \<open>\<^verbatim>\<open>Object.assign({}, source)\<close>: a fresh object with the source's own properties.\<close>

definition objectAssign :: "jsvalue jsobject \<Rightarrow> jsvalue jsobject \<Rightarrow> jsvalue jsobject" where
  "objectAssign target source =
     fold (\<lambda>k obj. setProperty obj k (getProperty source k)) (objectKeys source) target"

text \<open>\<^verbatim>\<open>String.prototype.startsWith\<close> and \<^verbatim>\<open>String.prototype.trim\<close>.\<close>

definition startsWith :: "string \<Rightarrow> string \<Rightarrow> bool" where
  "startsWith s p = (take (length p) s = p)"



text \<open>
  \<^verbatim>\<open>String.prototype.replace\<close> with a string pattern: only the first occurrence is
  replaced.  (The replacement is used literally; the only replacement in the module is the
  empty string.)
\<close>

fun replaceFirst :: "string \<Rightarrow> string \<Rightarrow> string \<Rightarrow> string" where
  "replaceFirst pat rep [] = (if pat = [] then rep else [])"
| "replaceFirst pat rep (c # s) =
     (if take (length pat) (c # s) = pat then rep @ drop (length pat) (c # s)
      else c # replaceFirst pat rep s)"


section \<open>Entity metadata, aliases and the builder state\<close>

text \<open>
  Entity metadata is an external collaborator.  Its data are fields; its methods that the
  module calls (\<^verbatim>\<open>getEntityValue\<close>, \<^verbatim>\<open>ensureEntityIdMap\<close>, \<^verbatim>\<open>findColumnsWithPropertyPath\<close>
  and the static \<^verbatim>\<open>EntityMetadata.createPropertyPath\<close>) are function-valued fields, so
  every statement below holds for whatever they compute.  Of \<^verbatim>\<open>transformer\<close> and
  \<^verbatim>\<open>embeddeds\<close> the module only reads whether one is present.
\<close>

datatype columnMetadata =
  ColumnMetadata
    (databaseName: string)
    (propertyName: string)
    (propertyPath: string)
    (referencedColumn: "columnMetadata option")
    (transformer: bool)
    (getEntityValue: "jsvalue \<Rightarrow> bool \<Rightarrow> jsvalue")

record relationMetadata =
  relationPropertyPath :: string
  joinColumns :: "columnMetadata list"
  inverseJoinColumns :: "columnMetadata list"

datatype entityMetadata =
  EntityMetadata
    (columns: "columnMetadata list")
    (relations: "relationMetadata list")
    (primaryColumns: "columnMetadata list")
    (hasMultiplePrimaryKeys: bool)
    (embeddeds: "string list")
    (deleteDateColumn: "columnMetadata option")
    (discriminatorColumn: "columnMetadata option")
    (discriminatorValue: jsvalue)
    (parentEntityMetadata: "entityMetadata option")
    (childEntityMetadatas: "entityMetadata list")
    (ensureEntityIdMap: "jsvalue \<Rightarrow> jsvalue")
    (findColumnsWithPropertyPath: "string \<Rightarrow> columnMetadata list")
    (createPropertyPath: "jsvalue \<Rightarrow> string list")

text \<open>An alias has metadata (\<^verbatim>\<open>hasMetadata\<close>) exactly when it denotes a mapped entity.\<close>

record Alias =
  aliasName :: string
  aliasMetadata :: "entityMetadata option"

definition hasMetadata :: "Alias \<Rightarrow> bool" where
  "hasMetadata a = (aliasMetadata a \<noteq> None)"

text \<open>
  Reading \<^verbatim>\<open>metadata\<close> from an alias that has none throws a plain \<^verbatim>\<open>Error\<close>.  The getter
  belongs to \<^verbatim>\<open>Alias\<close>, outside the module; the message names the alias.
\<close>

definition aliasMetadataError :: "Alias \<Rightarrow> error" where
  "aliasMetadataError a =
     Error (''Cannot get entity metadata for the given alias '' @ [CHR 0x22] @ aliasName a
              @ [CHR 0x22])"

record whereClause =
  whereType :: string
  condition :: string

record expressionMap =
  aliases :: "Alias list"
  mainAlias :: "Alias option"
  aliasNamePrefixingEnabled :: bool
  disableEscaping :: bool
  parameters :: "jsvalue jsobject"
  nativeParameters :: "jsvalue jsobject"
  comment :: "string option"
  queryType :: string
  withDeleted :: bool
  wheres :: "whereClause list"
  extraAppendedAndWhereCondition :: string

text \<open>
  \<open>newQueryExpressionMap\<close> is the state \<^verbatim>\<open>new QueryExpressionMap(connection)\<close> starts a
  builder with; that class is outside the module, so its initial state is a parameter.
\<close>

record connection =
  driver :: driver
  newQueryExpressionMap :: expressionMap

text \<open>
  The builder.  In the source \<^verbatim>\<open>parentQueryBuilder\<close> is a field of the expression map; it
  is kept beside it here because it makes the type recursive.
\<close>

datatype queryBuilder =
  QueryBuilder
    (connection: connection)
    (expressionMap: expressionMap)
    (parentQueryBuilder: "queryBuilder option")

definition withExpressionMap :: "queryBuilder \<Rightarrow> expressionMap \<Rightarrow> queryBuilder" where
  "withExpressionMap qb em = QueryBuilder (connection qb) em (parentQueryBuilder qb)"

text \<open>\<^verbatim>\<open>escape\<close>: the driver's escaping, unless escaping has been switched off.\<close>

definition escape :: "queryBuilder \<Rightarrow> string \<Rightarrow> string" where
  "escape qb name =
     (if \<not> disableEscaping (expressionMap qb) then name
      else driver_escape (driver (connection qb)) name)"

section \<open>The parameter ledger\<close>

definition setParameter :: "queryBuilder \<Rightarrow> string \<Rightarrow> jsvalue \<Rightarrow> queryBuilder" where
  "setParameter qb key v =
     withExpressionMap qb
       ((expressionMap qb)\<lparr>parameters := setProperty (parameters (expressionMap qb)) key v\<rparr>)"

fun isFunction :: "jsvalue \<Rightarrow> bool" where
  "isFunction (JFunction src) = True"
| "isFunction v = False"

definition functionParameterMessage :: "string \<Rightarrow> string" where
  "functionParameterMessage key =
     ''Function parameter isn'' @ [CHR 0x27] @ ''t supported in the parameters. Please check ''
       @ [CHR 0x22] @ key @ [CHR 0x22] @ '' parameter.''"

text \<open>
  \<^verbatim>\<open>setParameters\<close>: first the check of every value, then the parent builder (in sub-query
  mode), then one \<^verbatim>\<open>setParameter\<close> per key.
\<close>

fun setParameters :: "queryBuilder \<Rightarrow> jsvalue jsobject \<Rightarrow> error + queryBuilder" where
  "setParameters (QueryBuilder c em parent) ps =
     (case find (\<lambda>key. isFunction (getProperty ps key)) (objectKeys ps) of
        Some key \<Rightarrow> Inl (Error (functionParameterMessage key))
      | None \<Rightarrow>
          (case (case parent of
                   None \<Rightarrow> Inr None
                 | Some p \<Rightarrow>
                     (case setParameters p ps of Inl e \<Rightarrow> Inl e | Inr p' \<Rightarrow> Inr (Some p'))) of
             Inl e \<Rightarrow> Inl e
           | Inr parent' \<Rightarrow>
               Inr (fold (\<lambda>key qb. setParameter qb key (getProperty ps key)) (objectKeys ps)
                      (QueryBuilder c em parent'))))"

definition setNativeParameter :: "queryBuilder \<Rightarrow> string \<Rightarrow> jsvalue \<Rightarrow> queryBuilder" where
  "setNativeParameter qb key v =
     withExpressionMap qb
       ((expressionMap qb)\<lparr>nativeParameters :=
          setProperty (nativeParameters (expressionMap qb)) key v\<rparr>)"

text \<open>
  \<^verbatim>\<open>getParameters\<close> returns the projection together with the builder it leaves behind:
  the discriminator entry is written to the copy \<^verbatim>\<open>Object.assign({}, ...)\<close> made.
\<close>

definition discriminatorColumnValues :: "entityMetadata \<Rightarrow> jsvalue list" where
  "discriminatorColumnValues md =
     map discriminatorValue
       (filter (\<lambda>childMetadata. discriminatorColumn childMetadata \<noteq> None)
          (childEntityMetadatas md))
     @ [discriminatorValue md]"

definition getParameters :: "queryBuilder \<Rightarrow> jsvalue jsobject \<times> queryBuilder" where
  "getParameters qb =
     (let copy = objectAssign [] (parameters (expressionMap qb)) in
      (case mainAlias (expressionMap qb) of
         None \<Rightarrow> (copy, qb)
       | Some a \<Rightarrow>
           (case aliasMetadata a of
              None \<Rightarrow> (copy, qb)
            | Some md \<Rightarrow>
                if discriminatorColumn md \<noteq> None \<and> parentEntityMetadata md \<noteq> None
                then (setProperty copy ''discriminatorColumnValues''
                        (JArray (discriminatorColumnValues md)), qb)
                else (copy, qb))))"

section \<open>Comments\<close>

definition createComment :: "queryBuilder \<Rightarrow> string" where
  "createComment qb =
     (case comment (expressionMap qb) of
        None \<Rightarrow> []
      | Some c \<Rightarrow> if c = [] then [] else ''/* '' @ replaceFirst ''*/'' [] c @ '' */ '')"


section \<open>The property-path substitution engine\<close>

subsection \<open>The replacement table of one alias\<close>

text \<open>
  The table is filled from least to most relevant, later entries overwriting earlier
  ones.  \<^verbatim>\<open>joinColumn.referencedColumn!\<close> is a non-null assertion: a join column without a
  referenced column makes the property access throw.
\<close>

definition relationFirstJoinColumn ::
  "relationMetadata list \<Rightarrow> string jsobject \<Rightarrow> string jsobject" where
  "relationFirstJoinColumn rels replacements =
     fold (\<lambda>relation obj.
             if length (joinColumns relation) > 0
             then setProperty obj (relationPropertyPath relation)
                    (databaseName (hd (joinColumns relation)))
             else obj)
       rels replacements"

definition relationJoinColumn ::
  "relationMetadata \<Rightarrow> columnMetadata \<Rightarrow> error + string jsobject \<Rightarrow> error + string jsobject" where
  "relationJoinColumn relation joinColumn acc =
     (case acc of
        Inl e \<Rightarrow> Inl e
      | Inr obj \<Rightarrow>
          (case referencedColumn joinColumn of
             None \<Rightarrow> Inl TypeError
           | Some referenced \<Rightarrow>
               Inr (setProperty obj
                      (relationPropertyPath relation @ ''.'' @ propertyPath referenced)
                      (databaseName joinColumn))))"

definition relationJoinColumns ::
  "relationMetadata list \<Rightarrow> string jsobject \<Rightarrow> error + string jsobject" where
  "relationJoinColumns rels replacements =
     fold (\<lambda>relation acc.
             fold (relationJoinColumn relation)
               (joinColumns relation @ inverseJoinColumns relation) acc)
       rels (Inr replacements)"

definition createReplacements :: "entityMetadata \<Rightarrow> error + string jsobject" where
  "createReplacements md =
     (case relationJoinColumns (relations md) (relationFirstJoinColumn (relations md) []) of
        Inl e \<Rightarrow> Inl e
      | Inr r2 \<Rightarrow>
          Inr (fold (\<lambda>column obj. setProperty obj (propertyPath column) (databaseName column))
                 (columns md)
              (fold (\<lambda>column obj. setProperty obj (propertyName column) (databaseName column))
                 (columns md)
              (fold (\<lambda>column obj. setProperty obj (databaseName column) (databaseName column))
                 (columns md) r2))))"

definition getReplacement :: "string jsobject \<Rightarrow> string \<Rightarrow> string" where
  "getReplacement replacements p = (case map_of replacements p of Some v \<Rightarrow> v | None \<Rightarrow> ''undefined'')"

subsection \<open>The global regular-expression replace\<close>

text \<open>
  The pattern is \<^verbatim>\<open>([ =(]|^.{0})PREFIX(KEY1|KEY2|...)(?=[ =),]|.{0}$)\<close> with the flags
  \<^verbatim>\<open>gm\<close>; prefix and keys are escaped by \<^verbatim>\<open>escapeRegExp\<close>, so they match literally.
  With the flag \<^verbatim>\<open>m\<close>, \<^verbatim>\<open>^\<close> holds at the start of the text and after a line terminator,
  \<^verbatim>\<open>$\<close> at the end of the text and before a line terminator.
\<close>

definition isLineTerminator :: "char \<Rightarrow> bool" where
  "isLineTerminator c = (c = CHR 0x0A \<or> c = CHR 0x0D)"

definition isLeftBoundary :: "char \<Rightarrow> bool" where
  "isLeftBoundary c = (c = CHR '' '' \<or> c = CHR ''='' \<or> c = CHR ''('')"

definition isRightBoundary :: "char \<Rightarrow> bool" where
  "isRightBoundary c = (c = CHR '' '' \<or> c = CHR ''='' \<or> c = CHR '')'' \<or> c = CHR '','')"

text \<open>The lookahead \<^verbatim>\<open>(?=[ =),]|.{0}$)\<close> on the text that follows the key.\<close>

fun lookahead :: "string \<Rightarrow> bool" where
  "lookahead [] = True"
| "lookahead (c # s) = (isRightBoundary c \<or> isLineTerminator c)"

text \<open>
  The alternation of the keys: the first key, in the order of the pattern, that matches
  at the position and is followed by the lookahead (a key after which the lookahead fails
  is backtracked over).  The result is the key and the text after it.
\<close>

fun matchKeys :: "string \<Rightarrow> string list \<Rightarrow> string \<Rightarrow> (string \<times> string) option" where
  "matchKeys pfx [] s = None"
| "matchKeys pfx (key # keys) s =
     (if take (length (pfx @ key)) s = pfx @ key \<and> lookahead (drop (length (pfx @ key)) s)
      then Some (key, drop (length (pfx @ key)) s)
      else matchKeys pfx keys s)"

text \<open>
  One match attempt at a position: first with a boundary character consumed by the first
  group, then with the empty first group at a line start.  The result is the first group,
  the key and the text after the match.
\<close>

definition matchAt ::
  "string \<Rightarrow> string list \<Rightarrow> bool \<Rightarrow> string \<Rightarrow> (string \<times> string \<times> string) option" where
  "matchAt pfx keys atLineStart s =
     (case (case s of
              [] \<Rightarrow> None
            | c # t \<Rightarrow> if isLeftBoundary c then matchKeys pfx keys t else None) of
        Some (key, rest) \<Rightarrow> Some ([hd s], key, rest)
      | None \<Rightarrow>
          if atLineStart
          then (case matchKeys pfx keys s of
                  Some (key, rest) \<Rightarrow> Some ([], key, rest)
                | None \<Rightarrow> None)
          else None)"

text \<open>
  The scan of a global replace cuts the text into copied characters and matches.  After a
  match the scan goes on behind it; after an empty match it steps over one character.
\<close>

datatype piece = Copied char | Matched string string

lemma matchKeys_length:
  "matchKeys pfx keys s = Some (key, rest) \<Longrightarrow> length s = length (pfx @ key) + length rest"
proof (induction keys)
  case Nil
  then show ?case by simp
next
  case (Cons k ks)
  show ?case
  proof (cases "take (length (pfx @ k)) s = pfx @ k \<and> lookahead (drop (length (pfx @ k)) s)")
    case True
    with Cons.prems have eq: "key = k" "rest = drop (length (pfx @ k)) s" by auto
    from True have "length (pfx @ k) \<le> length s"
      by (metis length_take min.cobounded1)
    with eq show ?thesis by simp
  next
    case False
    with Cons show ?thesis by auto
  qed
qed

lemma matchAt_length:
  "matchAt pfx keys b s = Some (pre, key, rest) \<Longrightarrow>
   length s = length (pre @ pfx @ key) + length rest"
  by (auto simp: matchAt_def split: list.splits if_splits option.splits
           dest: matchKeys_length)

lemma matchAt_shorter:
  "matchAt pfx keys b s = Some (pre, key, rest) \<Longrightarrow> pre @ pfx @ key \<noteq> [] \<Longrightarrow>
   length rest < length s"
proof -
  assume m: "matchAt pfx keys b s = Some (pre, key, rest)" and ne: "pre @ pfx @ key \<noteq> []"
  have "length s = length (pre @ pfx @ key) + length rest"
    using m by (rule matchAt_length)
  moreover have "0 < length (pre @ pfx @ key)"
    using ne by blast
  ultimately show ?thesis by linarith
qed

function regexScan :: "string \<Rightarrow> string list \<Rightarrow> bool \<Rightarrow> string \<Rightarrow> piece list" where
  "regexScan pfx keys atLineStart s =
     (case matchAt pfx keys atLineStart s of
        Some (pre, key, rest) \<Rightarrow>
          Matched pre key #
            (if pre @ pfx @ key = [] then
               (case s of
                  [] \<Rightarrow> []
                | c # t \<Rightarrow> Copied c # regexScan pfx keys (isLineTerminator c) t)
             else regexScan pfx keys (isLineTerminator (last (pre @ pfx @ key))) rest)
      | None \<Rightarrow>
          (case s of
             [] \<Rightarrow> []
           | c # t \<Rightarrow> Copied c # regexScan pfx keys (isLineTerminator c) t))"
  by pat_completeness auto
termination
proof (relation "measure (\<lambda>(pfx, keys, b, s). length s)")
  fix pfx keys atLineStart s x2 x y xa ya
  assume "matchAt pfx keys atLineStart s = Some x2" "(x, y) = x2" "(xa, ya) = y"
    and "x @ pfx @ xa \<noteq> []"
  then show "((pfx, keys, isLineTerminator (last (x @ pfx @ xa)), ya), pfx, keys, atLineStart, s)
      \<in> measure (\<lambda>(pfx, keys, b, y). length y)"
    using matchAt_shorter [of pfx keys atLineStart s x xa ya] by auto
qed auto

declare regexScan.simps [simp del]

text \<open>The replacer callback writes the first group, the escaped prefix and the escaped column.\<close>

fun renderPiece :: "(string \<Rightarrow> string \<Rightarrow> string) \<Rightarrow> piece \<Rightarrow> string" where
  "renderPiece f (Copied c) = [c]"
| "renderPiece f (Matched pre key) = f pre key"

definition regexReplace ::
  "string \<Rightarrow> string list \<Rightarrow> (string \<Rightarrow> string \<Rightarrow> string) \<Rightarrow> string \<Rightarrow> string" where
  "regexReplace pfx keys f s = concat (map (renderPiece f) (regexScan pfx keys True s))"

text \<open>
  The text a piece was cut from, and the text a list of pieces was cut from; \<open>atLineStart\<close>
  says whether \<^verbatim>\<open>^\<close> holds behind the text \<open>before\<close>, when it holds at its start exactly
  if \<open>b\<close>.
\<close>

fun pieceSource :: "string \<Rightarrow> piece \<Rightarrow> string" where
  "pieceSource pfx (Copied c) = [c]"
| "pieceSource pfx (Matched pre key) = pre @ pfx @ key"

definition sourceText :: "string \<Rightarrow> piece list \<Rightarrow> string" where
  "sourceText pfx pieces = concat (map (pieceSource pfx) pieces)"

definition atLineStart :: "bool \<Rightarrow> string \<Rightarrow> bool" where
  "atLineStart b before = (if before = [] then b else isLineTerminator (last before))"

subsection \<open>replacePropertyNames\<close>

definition replaceForAlias :: "queryBuilder \<Rightarrow> Alias \<Rightarrow> error + string \<Rightarrow> error + string" where
  "replaceForAlias qb a acc =
     (case acc of
        Inl e \<Rightarrow> Inl e
      | Inr statement \<Rightarrow>
          (case aliasMetadata a of
             None \<Rightarrow> Inr statement
           | Some md \<Rightarrow>
               (let replaceAliasNamePrefix =
                      (if aliasNamePrefixingEnabled (expressionMap qb)
                       then aliasName a @ ''.'' else []);
                    replacementAliasNamePrefix =
                      (if aliasNamePrefixingEnabled (expressionMap qb)
                       then escape qb (aliasName a) @ ''.'' else [])
                in (case createReplacements md of
                      Inl e \<Rightarrow> Inl e
                    | Inr replacements \<Rightarrow>
                        if length (objectKeys replacements) > 0
                        then Inr (regexReplace replaceAliasNamePrefix (objectKeys replacements)
                                    (\<lambda>pre p. pre @ replacementAliasNamePrefix
                                               @ escape qb (getReplacement replacements p))
                                    statement)
                        else Inr statement))))"

definition replacePropertyNames :: "queryBuilder \<Rightarrow> string \<Rightarrow> error + string" where
  "replacePropertyNames qb statement =
     fold (replaceForAlias qb) (aliases (expressionMap qb)) (Inr statement)"


subsection \<open>Tokens\<close>

text \<open>
  A view of the text for stating when the substitution is stable.  The delimiters are the
  boundary characters of the pattern and the line terminators; they cut the text into
  tokens.  \<open>tokenMap F\<close> rewrites with \<open>F\<close> every token that stands behind a left
  boundary or at a line start and before a right boundary or at a line end, and keeps
  the rest of the text.  The substitutions of an alias pair each alias-prefixed key with
  the text the replacer callback writes for it.
\<close>

definition isDelimiter :: "char \<Rightarrow> bool" where
  "isDelimiter c = (isLeftBoundary c \<or> isRightBoundary c \<or> isLineTerminator c)"

definition delimiterFree :: "string \<Rightarrow> bool" where
  "delimiterFree s = list_all (\<lambda>c. \<not> isDelimiter c) s"

definition firstToken :: "string \<Rightarrow> string" where
  "firstToken s = takeWhile (\<lambda>c. \<not> isDelimiter c) s"

definition afterToken :: "string \<Rightarrow> string" where
  "afterToken s = dropWhile (\<lambda>c. \<not> isDelimiter c) s"

lemma afterToken_length: "afterToken s = d # r \<Longrightarrow> length r < length s"
proof -
  assume "afterToken s = d # r"
  then have "length (d # r) \<le> length s"
    unfolding afterToken_def by (metis length_dropWhile_le)
  then show ?thesis by simp
qed

function tokenMap :: "(string \<Rightarrow> string) \<Rightarrow> bool \<Rightarrow> string \<Rightarrow> string" where
  "tokenMap F leftOk s =
     (if leftOk \<and> lookahead (afterToken s) then F (firstToken s) else firstToken s)
       @ (case afterToken s of
            [] \<Rightarrow> []
          | d # r \<Rightarrow> d # tokenMap F (isLeftBoundary d \<or> isLineTerminator d) r)"
  by pat_completeness auto
termination
  by (relation "measure (\<lambda>(F, leftOk, s). length s)") (auto dest: afterToken_length)

declare tokenMap.simps [simp del]

definition aliasSubstitutions :: "queryBuilder \<Rightarrow> Alias \<Rightarrow> (string \<times> string) list" where
  "aliasSubstitutions qb a =
     (case aliasMetadata a of
        None \<Rightarrow> []
      | Some md \<Rightarrow>
          (case createReplacements md of
             Inl e \<Rightarrow> []
           | Inr replacements \<Rightarrow>
               map (\<lambda>p. ((if aliasNamePrefixingEnabled (expressionMap qb)
                           then aliasName a @ ''.'' else []) @ p,
                          (if aliasNamePrefixingEnabled (expressionMap qb)
                           then escape qb (aliasName a) @ ''.'' else [])
                            @ escape qb (getReplacement replacements p)))
                 (objectKeys replacements)))"

definition substitutions :: "queryBuilder \<Rightarrow> (string \<times> string) list" where
  "substitutions qb = concat (map (aliasSubstitutions qb) (aliases (expressionMap qb)))"

text \<open>
  Two conditions on the substitutions of a builder: every alias-prefixed key is a non-empty
  token, and the function is idempotent on every alias-prefixed key taken alone as the
  statement (what it makes of a key it leaves unchanged).
\<close>

definition keysWellFormed :: "queryBuilder \<Rightarrow> bool" where
  "keysWellFormed qb =
     list_all (\<lambda>(source, target). source \<noteq> [] \<and> delimiterFree source) (substitutions qb)"

definition keysIdempotent :: "queryBuilder \<Rightarrow> bool" where
  "keysIdempotent qb =
     list_all (\<lambda>(source, target).
                 case replacePropertyNames qb source of
                   Inl e \<Rightarrow> True
                 | Inr written \<Rightarrow> replacePropertyNames qb written = Inr written)
       (substitutions qb)"

definition tokenFunction :: "(string \<times> string) list \<Rightarrow> string \<Rightarrow> string" where
  "tokenFunction subs tok = (case map_of subs tok of Some r \<Rightarrow> r | None \<Rightarrow> tok)"

text \<open>
  The stretches of a text that a match can cover: they begin at a line start or right
  behind a space, \<^verbatim>\<open>=\<close> or \<^verbatim>\<open>(\<close>, and end at a line end or right before a space, \<^verbatim>\<open>=\<close>,
  \<^verbatim>\<open>)\<close> or \<^verbatim>\<open>,\<close>.  \<open>lineStart\<close> says whether the text begins at a line start.
\<close>

definition rightBoundedPrefixes :: "string \<Rightarrow> string list" where
  "rightBoundedPrefixes t =
     map (\<lambda>n. take n t) (filter (\<lambda>n. lookahead (drop n t)) [0..<Suc (length t)])"

fun boundedStretches :: "bool \<Rightarrow> string \<Rightarrow> string list" where
  "boundedStretches lineStart [] = (if lineStart then rightBoundedPrefixes [] else [])"
| "boundedStretches lineStart (c # t) =
     (if lineStart then rightBoundedPrefixes (c # t) else [])
       @ (if isLeftBoundary c then rightBoundedPrefixes t else [])
       @ boundedStretches (isLineTerminator c) t"


section \<open>The WHERE compiler\<close>

text \<open>\<^verbatim>\<open>Array.prototype.map\<close> with the element's index, a threaded state and exceptions.\<close>

fun mapIndexed ::
  "(nat \<Rightarrow> 'a \<Rightarrow> 's \<Rightarrow> error + 'b \<times> 's) \<Rightarrow> nat \<Rightarrow> 'a list \<Rightarrow> 's \<Rightarrow> error + 'b list \<times> 's" where
  "mapIndexed f i [] st = Inr ([], st)"
| "mapIndexed f i (x # xs) st =
     (case f i x st of
        Inl e \<Rightarrow> Inl e
      | Inr (y, st') \<Rightarrow>
          (case mapIndexed f (Suc i) xs st' of
             Inl e \<Rightarrow> Inl e
           | Inr (ys, st'') \<Rightarrow> Inr (y # ys, st'')))"

definition whereClauseString :: "queryBuilder \<Rightarrow> nat \<Rightarrow> whereClause \<Rightarrow> unit \<Rightarrow> error + string \<times> unit" where
  "whereClauseString qb index w u =
     (case replacePropertyNames qb (condition w) of
        Inl e \<Rightarrow> Inl e
      | Inr c \<Rightarrow>
          if whereType w = ''and'' then Inr ((if index > 0 then ''AND '' else []) @ c, u)
          else if whereType w = ''or'' then Inr ((if index > 0 then ''OR '' else []) @ c, u)
          else Inr (c, u))"

definition createWhereExpressionString :: "queryBuilder \<Rightarrow> error + string" where
  "createWhereExpressionString qb =
     (case mapIndexed (whereClauseString qb) 0 (wheres (expressionMap qb)) () of
        Inl e \<Rightarrow> Inl e
      | Inr (strings, u) \<Rightarrow> Inr (join '' '' strings))"






section \<open>The structured-condition compiler\<close>

text \<open>
  The argument of \<^verbatim>\<open>computeWhereParameter\<close>, by its TypeScript type: a string, a callback,
  a \<^verbatim>\<open>Brackets\<close> marker (its \<^verbatim>\<open>whereFactory\<close>), one object literal or an array of object
  literals.  A callback is a function on the builder it is given; what it throws is an
  error value.
\<close>

datatype whereArgument =
    WhereString string
  | WhereFunction "queryBuilder \<Rightarrow> error + string \<times> queryBuilder"
  | WhereBrackets "queryBuilder \<Rightarrow> error + queryBuilder"
  | WhereObject "jsvalue jsobject"
  | WhereObjects "jsvalue jsobject list"

definition nativeParameterKeys :: "queryBuilder \<Rightarrow> string list" where
  "nativeParameterKeys qb = objectKeys (nativeParameters (expressionMap qb))"

text \<open>
  The \<^verbatim>\<open>forEach\<close> over the values of an operator: value number \<open>i\<close> is stored under the
  parameter name followed by the decimal digits of \<open>parameterBaseCount + i\<close>.
\<close>

fun bindRealParameterValues ::
  "string \<Rightarrow> nat \<Rightarrow> nat \<Rightarrow> jsvalue list \<Rightarrow> queryBuilder \<times> nat \<Rightarrow> string list \<times> queryBuilder \<times> nat" where
  "bindRealParameterValues parameterName parameterBaseCount i [] st = ([], st)"
| "bindRealParameterValues parameterName parameterBaseCount i (v # vs) (qb, parameterIndex) =
     (let name = parameterName @ showNat (parameterBaseCount + i);
          placeholder = createParameter (driver (connection qb)) name parameterIndex;
          (placeholders, st') =
             bindRealParameterValues parameterName parameterBaseCount (Suc i) vs
               (setNativeParameter qb name v, Suc parameterIndex)
      in (placeholder # placeholders, st'))"

definition realParameterValues :: "findOperator \<Rightarrow> error + jsvalue list" where
  "realParameterValues operator =
     (if multipleParameters operator
      then (case operatorValue operator of JArray vs \<Rightarrow> Inr vs | _ \<Rightarrow> Inl TypeError)
      else Inr [operatorValue operator])"

definition bindOperator ::
  "findOperator \<Rightarrow> string \<Rightarrow> queryBuilder \<times> nat \<Rightarrow> error + string list \<times> queryBuilder \<times> nat" where
  "bindOperator operator parameterName st =
     (if useParameter operator then
        (case objectLiteralParameters operator of
           Some literal \<Rightarrow>
             (case setParameters (fst st) literal of
                Inl e \<Rightarrow> Inl e
              | Inr qb' \<Rightarrow> Inr ([], qb', snd st))
         | None \<Rightarrow>
             (case realParameterValues operator of
                Inl e \<Rightarrow> Inl e
              | Inr vs \<Rightarrow>
                  Inr (bindRealParameterValues parameterName
                         (length (filter (\<lambda>x. startsWith x parameterName)
                                    (nativeParameterKeys (fst st))))
                         0 vs st)))
      else Inr ([], st))"

text \<open>One column of one property path of one record, on an alias with metadata.\<close>

definition whereColumn ::
  "Alias \<Rightarrow> jsvalue jsobject \<Rightarrow> nat \<Rightarrow> string \<Rightarrow> nat \<Rightarrow> nat \<Rightarrow> columnMetadata \<Rightarrow>
   queryBuilder \<times> nat \<Rightarrow> error + string \<times> queryBuilder \<times> nat" where
  "whereColumn a whereObject whereIndex path propertyIndex columnIndex column st =
     (let aliasPath =
            (if aliasNamePrefixingEnabled (expressionMap (fst st))
             then aliasName a @ ''.'' @ path else propertyPath column);
          parameterName =
            ''where_'' @ showNat whereIndex @ ''_'' @ showNat propertyIndex
              @ ''_'' @ showNat columnIndex
      in (case getEntityValue column (JObject whereObject) True of
            JNull \<Rightarrow> Inr (aliasPath @ '' IS NULL'', st)
          | JFindOperator operator \<Rightarrow>
              (case bindOperator operator parameterName st of
                 Inl e \<Rightarrow> Inl e
               | Inr (placeholders, st') \<Rightarrow>
                   (case computeFindOperatorExpression (driver (connection (fst st)))
                           operator aliasPath placeholders of
                      Inl e \<Rightarrow> Inl e
                    | Inr expression \<Rightarrow> Inr (expression, st')))
          | parameterValue \<Rightarrow>
              Inr (aliasPath @ '' = ''
                     @ createParameter (driver (connection (fst st))) parameterName (snd st),
                   setNativeParameter (fst st) parameterName parameterValue, Suc (snd st))))"

definition wherePropertyPath ::
  "Alias \<Rightarrow> entityMetadata \<Rightarrow> jsvalue jsobject \<Rightarrow> nat \<Rightarrow> nat \<Rightarrow> string \<Rightarrow>
   queryBuilder \<times> nat \<Rightarrow> error + string \<times> queryBuilder \<times> nat" where
  "wherePropertyPath a md whereObject whereIndex propertyIndex path st =
     (if length (findColumnsWithPropertyPath md path) = 0 then Inl (EntityColumnNotFound path)
      else (case mapIndexed (whereColumn a whereObject whereIndex path propertyIndex) 0
                   (findColumnsWithPropertyPath md path) st of
              Inl e \<Rightarrow> Inl e
            | Inr (expressions, st') \<Rightarrow>
                Inr (join '' AND '' (filter (\<lambda>expression. expression \<noteq> []) expressions), st')))"

definition whereRecord ::
  "Alias \<Rightarrow> entityMetadata \<Rightarrow> nat \<Rightarrow> jsvalue jsobject \<Rightarrow>
   queryBuilder \<times> nat \<Rightarrow> error + string \<times> queryBuilder \<times> nat" where
  "whereRecord a md whereIndex whereObject st =
     (case mapIndexed (wherePropertyPath a md whereObject whereIndex) 0
             (createPropertyPath md (JObject whereObject)) st of
        Inl e \<Rightarrow> Inl e
      | Inr (expressions, st') \<Rightarrow>
          Inr (join '' AND '' (filter (\<lambda>expression. expression \<noteq> []) expressions), st'))"

text \<open>
  One key of one record, on an alias without metadata.  The parameter index of this
  branch is the key's index in the record.
\<close>

definition whereKey ::
  "Alias \<Rightarrow> jsvalue jsobject \<Rightarrow> nat \<Rightarrow> nat \<Rightarrow> string \<Rightarrow> queryBuilder \<Rightarrow>
   error + string \<times> queryBuilder" where
  "whereKey a whereObject whereIndex parameterIndex key qb =
     (let aliasPath =
            (if aliasNamePrefixingEnabled (expressionMap qb)
             then aliasName a @ ''.'' @ key else key)
      in (case getProperty whereObject key of
            JNull \<Rightarrow> Inr (aliasPath @ '' IS NULL'', qb)
          | parameterValue \<Rightarrow>
              (let parameterName = ''where_'' @ showNat whereIndex @ ''_'' @ showNat parameterIndex
               in Inr (aliasPath @ '' = ''
                         @ createParameter (driver (connection qb)) parameterName parameterIndex,
                       setNativeParameter qb parameterName parameterValue))))"

definition whereRecordPlain ::
  "Alias \<Rightarrow> nat \<Rightarrow> jsvalue jsobject \<Rightarrow> queryBuilder \<Rightarrow> error + string \<times> queryBuilder" where
  "whereRecordPlain a whereIndex whereObject qb =
     (case mapIndexed (whereKey a whereObject whereIndex) 0 (objectKeys whereObject) qb of
        Inl e \<Rightarrow> Inl e
      | Inr (expressions, qb') \<Rightarrow> Inr (join '' AND '' expressions, qb'))"

definition joinAndConditions :: "string list \<Rightarrow> string" where
  "joinAndConditions andConditions =
     (if length andConditions > 1
      then join '' OR '' (map (\<lambda>w. ''('' @ w @ '')'') andConditions)
      else join [] andConditions)"

definition computeWhereObjects ::
  "queryBuilder \<Rightarrow> jsvalue jsobject list \<Rightarrow> error + string \<times> queryBuilder" where
  "computeWhereObjects qb whereObjects =
     (case mainAlias (expressionMap qb) of
        None \<Rightarrow> Inl TypeError
      | Some a \<Rightarrow>
          (case aliasMetadata a of
             Some md \<Rightarrow>
               (case mapIndexed (whereRecord a md) 0 whereObjects
                       (qb, length (nativeParameterKeys qb)) of
                  Inl e \<Rightarrow> Inl e
                | Inr (andConditions, st) \<Rightarrow> Inr (joinAndConditions andConditions, fst st))
           | None \<Rightarrow>
               (case mapIndexed (whereRecordPlain a) 0 whereObjects qb of
                  Inl e \<Rightarrow> Inl e
                | Inr (andConditions, qb') \<Rightarrow> Inr (joinAndConditions andConditions, qb'))))"

text \<open>
  The \<^verbatim>\<open>Brackets\<close> branch: a new builder that takes the main alias, the prefixing flag and
  the native-parameter store of this one runs the factory; the store is shared, so what the
  factory's builder holds afterwards is this builder's store.
\<close>

definition computeWhereBrackets ::
  "queryBuilder \<Rightarrow> (queryBuilder \<Rightarrow> error + queryBuilder) \<Rightarrow> error + string \<times> queryBuilder" where
  "computeWhereBrackets qb whereFactory =
     (let whereQueryBuilder =
            QueryBuilder (connection qb)
              ((newQueryExpressionMap (connection qb))
                 \<lparr>mainAlias := mainAlias (expressionMap qb),
                  aliasNamePrefixingEnabled := aliasNamePrefixingEnabled (expressionMap qb),
                  nativeParameters := nativeParameters (expressionMap qb)\<rparr>)
              None
      in (case whereFactory whereQueryBuilder of
            Inl e \<Rightarrow> Inl e
          | Inr built \<Rightarrow>
              (case createWhereExpressionString built of
                 Inl e \<Rightarrow> Inl e
               | Inr whereString \<Rightarrow>
                   (case setParameters
                           (withExpressionMap qb
                              ((expressionMap qb)
                                 \<lparr>nativeParameters := nativeParameters (expressionMap built)\<rparr>))
                           (fst (getParameters built)) of
                      Inl e \<Rightarrow> Inl e
                    | Inr qb' \<Rightarrow>
                        Inr (if whereString \<noteq> [] then ''('' @ whereString @ '')'' else [],
                             qb')))))"

fun computeWhereParameter ::
  "queryBuilder \<Rightarrow> whereArgument \<Rightarrow> error + string \<times> queryBuilder" where
  "computeWhereParameter qb (WhereString s) = Inr (s, qb)"
| "computeWhereParameter qb (WhereBrackets whereFactory) = computeWhereBrackets qb whereFactory"
| "computeWhereParameter qb (WhereFunction f) = f qb"
| "computeWhereParameter qb (WhereObject whereObject) = computeWhereObjects qb [whereObject]"
| "computeWhereParameter qb (WhereObjects whereObjects) = computeWhereObjects qb whereObjects"

section \<open>The identity-WHERE compiler\<close>

text \<open>One primary column of one identity, on the general path.\<close>

definition whereIdColumn ::
  "string \<Rightarrow> jsvalue \<Rightarrow> nat \<Rightarrow> nat \<Rightarrow> columnMetadata \<Rightarrow> queryBuilder \<times> nat \<Rightarrow>
   error + string \<times> queryBuilder \<times> nat" where
  "whereIdColumn aliasPrefix entityId index secondIndex primaryColumn st =
     (let parameterName = ''id_'' @ showNat index @ ''_'' @ showNat secondIndex
      in Inr (aliasPrefix @ escape (fst st) (databaseName primaryColumn) @ '' = ''
                @ createParameter (driver (connection (fst st))) parameterName (snd st),
              setNativeParameter (fst st) parameterName (getEntityValue primaryColumn entityId True),
              Suc (snd st)))"

definition whereId ::
  "string \<Rightarrow> entityMetadata \<Rightarrow> nat \<Rightarrow> jsvalue \<Rightarrow> queryBuilder \<times> nat \<Rightarrow>
   error + string \<times> queryBuilder \<times> nat" where
  "whereId aliasPrefix md index entityId st =
     (case mapIndexed (whereIdColumn aliasPrefix entityId index) 0 (primaryColumns md) st of
        Inl e \<Rightarrow> Inl e
      | Inr (whereSubStrings, st') \<Rightarrow> Inr (join '' AND '' whereSubStrings, st'))"

text \<open>
  The general path.  With no identity at all the source returns \<^verbatim>\<open>whereStrings[0]\<close>, that
  is \<^verbatim>\<open>undefined\<close>: the result \<open>None\<close>.
\<close>

definition createWhereIdsGeneral ::
  "queryBuilder \<Rightarrow> Alias \<Rightarrow> entityMetadata \<Rightarrow> jsvalue list \<Rightarrow> error + string option \<times> queryBuilder" where
  "createWhereIdsGeneral qb a md normalized =
     (let aliasPrefix =
            (if aliasNamePrefixingEnabled (expressionMap qb)
             then escape qb (aliasName a) @ ''.'' else [])
      in (case mapIndexed (whereId aliasPrefix md) 0 normalized
                 (qb, length (nativeParameterKeys qb)) of
            Inl e \<Rightarrow> Inl e
          | Inr (whereStrings, st) \<Rightarrow>
              Inr (if length whereStrings > 1
                   then Some (''('' @ join '' OR '' (map (\<lambda>w. ''('' @ w @ '')'') whereStrings)
                                @ '')'')
                   else (case whereStrings of [] \<Rightarrow> None | w # ws \<Rightarrow> Some w),
                   fst st)))"

text \<open>
  \<^verbatim>\<open>createWhereIdsExpression\<close>.  Without a main alias the access to its \<^verbatim>\<open>metadata\<close> is a
  \<^verbatim>\<open>TypeError\<close>; the \<^verbatim>\<open>metadata\<close> of an alias without one is the error of the getter.
  The helper \<^verbatim>\<open>In\<close> is imported from \<^verbatim>\<open>find-options/operator/In\<close>, outside
  the module: it is the parameter \<open>In\<close>, a function from the identity values to a find
  operator.
\<close>

definition createWhereIdsExpression ::
  "(jsvalue list \<Rightarrow> findOperator) \<Rightarrow> queryBuilder \<Rightarrow> jsvalue \<Rightarrow>
   error + string option \<times> queryBuilder" where
  "createWhereIdsExpression In qb ids =
     (case mainAlias (expressionMap qb) of
        None \<Rightarrow> Inl TypeError
      | Some a \<Rightarrow>
          (case aliasMetadata a of
             None \<Rightarrow> Inl (aliasMetadataError a)
           | Some md \<Rightarrow>
               (let normalized =
                      map (ensureEntityIdMap md) (case ids of JArray xs \<Rightarrow> xs | v \<Rightarrow> [v])
                in if \<not> hasMultiplePrimaryKeys md \<and> length (embeddeds md) = 0 then
                     (case primaryColumns md of
                        [] \<Rightarrow> Inl TypeError
                      | primaryColumn # others \<Rightarrow>
                          if \<not> transformer primaryColumn then
                            (case computeWhereParameter qb
                                    (WhereObject
                                       [(propertyName primaryColumn,
                                         JFindOperator
                                           (In (map (\<lambda>entityId. getEntityValue primaryColumn entityId False)
                                                  normalized)))]) of
                               Inl e \<Rightarrow> Inl e
                             | Inr (expression, qb') \<Rightarrow> Inr (Some expression, qb'))
                          else createWhereIdsGeneral qb a md normalized)
                   else createWhereIdsGeneral qb a md normalized)))"


section \<open>Example data\<close>

text \<open>
  A driver that escapes with square brackets and writes a placeholder as a colon and the
  parameter's name; an entity whose columns read their value from the record they are
  given; a builder in the state a new expression map starts with; an \<^verbatim>\<open>In\<close> helper whose
  descriptor binds each member of its payload to a placeholder of its own, and one whose
  descriptor binds the payload as a whole.
\<close>

definition spreadingIn :: "jsvalue list \<Rightarrow> findOperator" where
  "spreadingIn vs = FindOperator ''in'' (JArray vs) True True None None None"

definition arrayIn :: "jsvalue list \<Rightarrow> findOperator" where
  "arrayIn vs = FindOperator ''in'' (JArray vs) True False None None None"

definition exampleDriver :: driver where
  "exampleDriver =
     \<lparr>driverType = OtherDriver,
      driver_escape = (\<lambda>name. ''['' @ name @ '']''),
      createParameter = (\<lambda>name index. CHR '':'' # name)\<rparr>"

definition exampleExpressionMap :: expressionMap where
  "exampleExpressionMap =
     \<lparr>aliases = [], mainAlias = None, aliasNamePrefixingEnabled = True, disableEscaping = True,
      parameters = [], nativeParameters = [], comment = None, queryType = ''select'',
      withDeleted = False, wheres = [], extraAppendedAndWhereCondition = []\<rparr>"

definition exampleConnection :: connection where
  "exampleConnection = \<lparr>driver = exampleDriver, newQueryExpressionMap = exampleExpressionMap\<rparr>"

definition exampleBuilder :: queryBuilder where
  "exampleBuilder = QueryBuilder exampleConnection exampleExpressionMap None"

definition exampleColumn :: "string \<Rightarrow> string \<Rightarrow> columnMetadata" where
  "exampleColumn property column =
     ColumnMetadata column property property None False
       (\<lambda>entity transform. case entity of JObject kvs \<Rightarrow> getProperty kvs property | _ \<Rightarrow> JUndefined)"

definition exampleMetadata :: "columnMetadata list \<Rightarrow> entityMetadata" where
  "exampleMetadata cols =
     EntityMetadata cols [] (take 1 cols) False [] None None JUndefined None []
       (\<lambda>entityId. case entityId of JObject kvs \<Rightarrow> entityId | v \<Rightarrow> JObject [(propertyName (hd cols), v)])
       (\<lambda>path. filter (\<lambda>column. propertyPath column = path) cols)
       (\<lambda>entity. case entity of JObject kvs \<Rightarrow> objectKeys kvs | _ \<Rightarrow> [])"

text \<open>Single-table inheritance: an animal hierarchy.\<close>

definition animalChild :: "string \<Rightarrow> entityMetadata" where
  "animalChild v =
     EntityMetadata [] [] [] False [] None (Some (exampleColumn ''type'' ''type'')) (JString v)
       None [] (\<lambda>v. v) (\<lambda>path. []) (\<lambda>entity. [])"

definition catMetadata :: entityMetadata where
  "catMetadata =
     EntityMetadata [exampleColumn ''id'' ''id'', exampleColumn ''type'' ''type''] [] [exampleColumn ''id'' ''id''] False []
       None (Some (exampleColumn ''type'' ''type'')) (JString ''cat'')
       (Some (animalChild ''animal'')) [animalChild ''dog'', animalChild ''bird'']
       (\<lambda>v. v) (\<lambda>path. []) (\<lambda>entity. [])"

definition catBuilder :: queryBuilder where
  "catBuilder =
     QueryBuilder exampleConnection
       (exampleExpressionMap
          \<lparr>mainAlias := Some \<lparr>aliasName = ''cat'', aliasMetadata = Some catMetadata\<rparr>\<rparr>)
       None"

text \<open>
  The same hierarchy seen from the parent: cat, dog and bird are the children of animal, and
  cat has no child of its own, so dog and bird are its siblings.
\<close>

definition animalMetadata :: entityMetadata where
  "animalMetadata =
     EntityMetadata [exampleColumn ''id'' ''id'', exampleColumn ''type'' ''type''] [] [exampleColumn ''id'' ''id''] False []
       None (Some (exampleColumn ''type'' ''type'')) (JString ''animal'')
       None [animalChild ''cat'', animalChild ''dog'', animalChild ''bird'']
       (\<lambda>v. v) (\<lambda>path. []) (\<lambda>entity. [])"

definition siblingCatMetadata :: entityMetadata where
  "siblingCatMetadata =
     EntityMetadata [exampleColumn ''id'' ''id'', exampleColumn ''type'' ''type''] [] [exampleColumn ''id'' ''id''] False []
       None (Some (exampleColumn ''type'' ''type'')) (JString ''cat'')
       (Some animalMetadata) []
       (\<lambda>v. v) (\<lambda>path. []) (\<lambda>entity. [])"

definition siblingCatBuilder :: queryBuilder where
  "siblingCatBuilder =
     QueryBuilder exampleConnection
       (exampleExpressionMap
          \<lparr>mainAlias := Some \<lparr>aliasName = ''cat'', aliasMetadata = Some siblingCatMetadata\<rparr>\<rparr>)
       None"

definition commentBuilder :: "string \<Rightarrow> queryBuilder" where
  "commentBuilder c =
     QueryBuilder exampleConnection (exampleExpressionMap\<lparr>comment := Some c\<rparr>) None"

text \<open>A soft-deletable entity: posts with a delete-date column.\<close>

definition postMetadata :: entityMetadata where
  "postMetadata =
     EntityMetadata
       [exampleColumn ''id'' ''post_id'', exampleColumn ''title'' ''title'',
        exampleColumn ''deletedAt'' ''deleted_at'']
       [] [exampleColumn ''id'' ''post_id''] False []
       (Some (exampleColumn ''deletedAt'' ''deleted_at'')) None JUndefined None []
       (\<lambda>entityId. case entityId of JObject kvs \<Rightarrow> entityId | v \<Rightarrow> JObject [(''id'', v)])
       (\<lambda>path. filter (\<lambda>column. propertyPath column = path)
                 [exampleColumn ''id'' ''post_id'', exampleColumn ''title'' ''title'',
                  exampleColumn ''deletedAt'' ''deleted_at''])
       (\<lambda>entity. case entity of JObject kvs \<Rightarrow> objectKeys kvs | _ \<Rightarrow> [])"

definition postAlias :: Alias where
  "postAlias = \<lparr>aliasName = ''post'', aliasMetadata = Some postMetadata\<rparr>"

definition postBuilder :: "whereClause list \<Rightarrow> queryBuilder" where
  "postBuilder ws =
     QueryBuilder exampleConnection
       (exampleExpressionMap\<lparr>aliases := [postAlias], mainAlias := Some postAlias, wheres := ws\<rparr>)
       None"

text \<open>An entity whose only column is \<^verbatim>\<open>id\<close>, under any alias name and builder state.\<close>

definition idMetadata :: entityMetadata where
  "idMetadata = exampleMetadata [exampleColumn ''id'' ''id'']"

definition idBuilder :: "connection \<Rightarrow> expressionMap \<Rightarrow> string \<Rightarrow> queryBuilder option \<Rightarrow> queryBuilder" where
  "idBuilder conn em n parent =
     QueryBuilder conn (em\<lparr>aliases := [\<lparr>aliasName = n, aliasMetadata = Some idMetadata\<rparr>]\<rparr>) parent"


text \<open>The replacement table of the post entity.\<close>

definition postReplacements :: "string jsobject" where
  "postReplacements =
     [(''post_id'', ''post_id''), (''title'', ''title''), (''deleted_at'', ''deleted_at''),
      (''id'', ''post_id''), (''deletedAt'', ''deleted_at'')]"

text \<open>
  An entity in which the property \<^verbatim>\<open>b\<close> is named like the column of the property \<^verbatim>\<open>a\<close>,
  in a builder with escaping switched off.
\<close>

definition chainMetadata :: entityMetadata where
  "chainMetadata = exampleMetadata [exampleColumn ''a'' ''b'', exampleColumn ''b'' ''c'']"

definition chainBuilder :: queryBuilder where
  "chainBuilder =
     QueryBuilder exampleConnection
       (exampleExpressionMap
          \<lparr>aliases := [\<lparr>aliasName = ''t'', aliasMetadata = Some chainMetadata\<rparr>],
           disableEscaping := False\<rparr>)
       None"

definition idsMetadata :: "bool \<Rightarrow> entityMetadata" where
  "idsMetadata withTransformer =
     EntityMetadata
       [exampleColumn ''id'' ''post_id'', exampleColumn ''title'' ''title'']
       []
       [ColumnMetadata ''post_id'' ''id'' ''id'' None withTransformer
          (getEntityValue (exampleColumn ''id'' ''post_id''))]
       False [] None None JUndefined None []
       (\<lambda>entityId. case entityId of JObject kvs \<Rightarrow> entityId | v \<Rightarrow> JObject [(''id'', v)])
       (\<lambda>path. filter (\<lambda>column. propertyPath column = path)
                 [exampleColumn ''id'' ''post_id'', exampleColumn ''title'' ''title''])
       (\<lambda>entity. case entity of JObject kvs \<Rightarrow> objectKeys kvs | _ \<Rightarrow> [])"

definition idsBuilder :: "bool \<Rightarrow> queryBuilder" where
  "idsBuilder withTransformer =
     QueryBuilder exampleConnection
       (exampleExpressionMap
          \<lparr>aliases := [\<lparr>aliasName = ''post'', aliasMetadata = Some (idsMetadata withTransformer)\<rparr>],
           mainAlias := Some \<lparr>aliasName = ''post'', aliasMetadata = Some (idsMetadata withTransformer)\<rparr>\<rparr>)
       None"

text \<open>A readable view of the native-parameter store: every stored value converted as
  JavaScript converts it to a string.\<close>

definition nativeParameterList :: "queryBuilder \<Rightarrow> (string \<times> string) list" where
  "nativeParameterList qb = map (\<lambda>(k, v). (k, toString v)) (nativeParameters (expressionMap qb))"

text \<open>
  A property path with eleven columns (a relation joined over eleven columns): column
  \<open>i\<close> reads \<^verbatim>\<open>owner.k<i>\<close> from the condition.  In the condition, column 1 holds a
  less-than operator and every other column a plain number.
\<close>

definition ownerColumn :: "nat \<Rightarrow> columnMetadata" where
  "ownerColumn i =
     ColumnMetadata (''owner_k'' @ showNat i) ''owner'' ''owner'' None False
       (\<lambda>entity transform.
          case entity of
            JObject kvs \<Rightarrow>
              (case getProperty kvs ''owner'' of
                 JObject owner \<Rightarrow> getProperty owner (''k'' @ showNat i)
               | _ \<Rightarrow> JUndefined)
          | _ \<Rightarrow> JUndefined)"

definition petBuilder :: queryBuilder where
  "petBuilder =
     QueryBuilder exampleConnection
       (exampleExpressionMap
          \<lparr>mainAlias := Some \<lparr>aliasName = ''pet'',
                 aliasMetadata = Some (exampleMetadata (map ownerColumn [0..<11]))\<rparr>\<rparr>)
       None"

definition lessThanOperator :: "jsvalue \<Rightarrow> findOperator" where
  "lessThanOperator v = FindOperator ''lessThan'' v True False None None None"

definition ownerCondition :: "jsvalue jsobject" where
  "ownerCondition =
     [(''owner'',
       JObject (map (\<lambda>i. (''k'' @ showNat i,
                           if i = 1 then JFindOperator (lessThanOperator (JNumber 7)) else JNumber (int i)))
                  [0..<11]))]"

text \<open>
  What a compilation leaves behind, in readable form: the expression and the
  native-parameter store; and a second compilation on the builder the first one returned.
\<close>

definition compiled ::
  "error + string \<times> queryBuilder \<Rightarrow> (string \<times> (string \<times> string) list) option" where
  "compiled r = (case r of Inl e \<Rightarrow> None | Inr (expression, qb) \<Rightarrow> Some (expression, nativeParameterList qb))"

definition thenWhere ::
  "error + string \<times> queryBuilder \<Rightarrow> whereArgument \<Rightarrow> error + string \<times> queryBuilder" where
  "thenWhere r w = (case r of Inl e \<Rightarrow> Inl e | Inr (expression, qb) \<Rightarrow> computeWhereParameter qb w)"

text \<open>
  Two entities with one primary column, no embedded identity and no transformer whose
  metadata does not lead back to the \<^verbatim>\<open>In\<close> descriptor: the primary column of the first
  reads a nested property, so what it reads from the generated condition is not the
  descriptor; the property name of the primary column of the second is not the property
  path of any column.  The result of the identity compiler in readable form.
\<close>

definition strayBuilder :: queryBuilder where
  "strayBuilder =
     QueryBuilder exampleConnection
       (exampleExpressionMap
          \<lparr>mainAlias := Some \<lparr>aliasName = ''pet'',
                 aliasMetadata = Some (exampleMetadata [ownerColumn 0])\<rparr>\<rparr>)
       None"

definition unresolvedBuilder :: queryBuilder where
  "unresolvedBuilder =
     QueryBuilder exampleConnection
       (exampleExpressionMap
          \<lparr>mainAlias := Some \<lparr>aliasName = ''post'',
                 aliasMetadata = Some (exampleMetadata
                   [ColumnMetadata ''post_id'' ''id'' ''key.id'' None False
                      (getEntityValue (exampleColumn ''id'' ''post_id''))])\<rparr>\<rparr>)
       None"

definition compiledIds ::
  "error + string option \<times> queryBuilder \<Rightarrow> error + string option \<times> (string \<times> string) list" where
  "compiledIds r =
     (case r of Inl e \<Rightarrow> Inl e | Inr (expression, qb) \<Rightarrow> Inr (expression, nativeParameterList qb))"

text \<open>
  A builder with escaping switched off, with or without alias prefixes, over mapped
  aliases given by name; an entity with the properties \<^verbatim>\<open>id\<close> and \<^verbatim>\<open>title\<close>, and one that
  also has a property \<^verbatim>\<open>middleName\<close>.
\<close>

definition plainBuilder :: "bool \<Rightarrow> (string \<times> entityMetadata) list \<Rightarrow> queryBuilder" where
  "plainBuilder prefixing entities =
     QueryBuilder exampleConnection
       (exampleExpressionMap
          \<lparr>aliases := map (\<lambda>(n, md). \<lparr>aliasName = n, aliasMetadata = Some md\<rparr>) entities,
           aliasNamePrefixingEnabled := prefixing,
           disableEscaping := False\<rparr>)
       None"

definition userMetadata :: entityMetadata where
  "userMetadata = exampleMetadata [exampleColumn ''id'' ''user_id'', exampleColumn ''title'' ''title'']"

definition personMetadata :: entityMetadata where
  "personMetadata =
     exampleMetadata [exampleColumn ''id'' ''id'', exampleColumn ''middleName'' ''middle_name'']"

text \<open>
  An entity with a relation whose property path \<^verbatim>\<open>b c\<close> contains a space, next to a
  column \<^verbatim>\<open>a\<close> stored as \<^verbatim>\<open>b\<close>; and an entity two of whose column names contain a space
  and are properties under their own names, so that these keys are written back as they
  stand.
\<close>

definition spacedMetadata :: entityMetadata where
  "spacedMetadata =
     EntityMetadata [exampleColumn ''a'' ''b'']
       [\<lparr>relationPropertyPath = ''b c'',
         joinColumns = [ColumnMetadata ''z'' ''q'' ''q'' (Some (exampleColumn ''id'' ''id'')) False
                          (\<lambda>entity transform. JUndefined)],
         inverseJoinColumns = []\<rparr>]
       [] False [] None None JUndefined None []
       (\<lambda>v. v) (\<lambda>path. []) (\<lambda>entity. [])"

definition selfWrittenMetadata :: entityMetadata where
  "selfWrittenMetadata =
     exampleMetadata
       [exampleColumn ''z t.a'' ''z t.a'', exampleColumn ''y'' ''z'', exampleColumn ''b'' ''c'',
        exampleColumn ''a t.b'' ''a t.b'']"

section \<open>The operator translator: properties\<close>

lemma join_nonempty: "ps \<noteq> [] \<Longrightarrow> \<forall>p \<in> set ps. p \<noteq> [] \<Longrightarrow> join sep ps \<noteq> []"
proof -
  assume ne: "ps \<noteq> []" and all: "\<forall>p \<in> set ps. p \<noteq> []"
  from ne obtain x xs where ps: "ps = x # xs" by (cases ps) auto
  with all have "x \<noteq> []" by simp
  then show ?thesis using ps by (cases xs) auto
qed

text \<open>
  C4.  For every qualified column path, an \<^verbatim>\<open>in\<close> descriptor with no bound placeholder
  is translated to the always-false fragment \<^verbatim>\<open>0=1\<close>, and with one or more placeholders
  to the column, \<^verbatim>\<open> IN (\<close>, the placeholders joined by a comma and a space, and \<^verbatim>\<open>)\<close>.
  The fragment \<^verbatim>\<open>IN ()\<close> is not produced: not for the empty list, and not for any
  list of non-empty placeholders.
\<close>

theorem in_operator_expression:
  assumes "type operator = ''in''"
  shows "(placeholders = [] \<longrightarrow>
            computeFindOperatorExpression drv operator aliasPath placeholders = Inr ''0=1'')
       \<and> (placeholders \<noteq> [] \<longrightarrow>
            computeFindOperatorExpression drv operator aliasPath placeholders
              = Inr (aliasPath @ '' IN ('' @ join '', '' placeholders @ '')''))
       \<and> ((\<forall>p \<in> set placeholders. p \<noteq> []) \<longrightarrow>
            computeFindOperatorExpression drv operator aliasPath placeholders
              \<noteq> Inr (aliasPath @ '' IN ()''))"
proof (cases "placeholders = []")
  case True
  with assms show ?thesis
    by (simp add: computeFindOperatorExpression.simps)
next
  case False
  have "\<forall>p \<in> set placeholders. p \<noteq> [] \<Longrightarrow> join '', '' placeholders \<noteq> []"
    using False by (simp add: join_nonempty)
  with assms False show ?thesis
    by (auto simp add: computeFindOperatorExpression.simps)
qed

theorem in_operator_expression_witness:
  "computeFindOperatorExpression exampleDriver (spreadingIn [JNumber 5, JNumber 6]) ''post.id'' [] = Inr ''0=1''
   \<and> computeFindOperatorExpression exampleDriver (spreadingIn [JNumber 5, JNumber 6]) ''post.id'' ['':a'', '':b'']
       = Inr ''post.id IN (:a, :b)''
   \<and> computeFindOperatorExpression exampleDriver (spreadingIn [JNumber 5, JNumber 6]) ''post.id'' ['':a'', '':b'']
       \<noteq> Inr ''post.id IN ()''"
  using in_operator_expression [of "spreadingIn [JNumber 5, JNumber 6]" "[]" exampleDriver "''post.id''"]
        in_operator_expression [of "spreadingIn [JNumber 5, JNumber 6]" "['':a'', '':b'']" exampleDriver "''post.id''"]
  by (simp add: spreadingIn_def)

text \<open>
  C5.  Negation composes: a \<^verbatim>\<open>not\<close> descriptor with a child is translated to \<^verbatim>\<open>NOT(\<close>,
  the translation of the child for the same column and placeholders, and \<^verbatim>\<open>)\<close> (it
  fails where the child's translation fails); \<^verbatim>\<open>not\<close> around \<^verbatim>\<open>between\<close> renders
  \<^verbatim>\<open>NOT(c BETWEEN p0 AND p1)\<close>; a \<^verbatim>\<open>not\<close> descriptor without a child is translated to
  the inequality of the column and the first bound placeholder.
\<close>

theorem not_operator_expression:
  "(type operator = ''not'' \<and> child operator = Some d \<longrightarrow>
      computeFindOperatorExpression drv operator aliasPath placeholders
        = (case computeFindOperatorExpression drv d aliasPath placeholders of
             Inl e \<Rightarrow> Inl e
           | Inr s \<Rightarrow> Inr (''NOT('' @ s @ '')'')))
   \<and> computeFindOperatorExpression drv
        (FindOperator ''not'' v1 u1 m1
           (Some (FindOperator ''between'' v2 u2 m2 None g2 l2)) g1 l1) aliasPath [p0, p1]
        = Inr (''NOT('' @ aliasPath @ '' BETWEEN '' @ p0 @ '' AND '' @ p1 @ '')'')
   \<and> (type operator = ''not'' \<and> child operator = None \<longrightarrow>
        computeFindOperatorExpression drv operator aliasPath placeholders
          = Inr (aliasPath @ '' != '' @ parameterAt placeholders 0)
        \<and> computeFindOperatorExpression drv operator aliasPath [p0]
          = Inr (aliasPath @ '' != '' @ p0))"
  by (auto simp add: computeFindOperatorExpression.simps [of drv operator]
        computeFindOperatorExpression.simps [of drv "FindOperator t v u m c g l" for t v u m c g l]
        parameterAt_def)

theorem not_operator_expression_witness:
  "computeFindOperatorExpression exampleDriver
     (FindOperator ''not'' JUndefined True False
        (Some (FindOperator ''isNull'' JUndefined False False None None None)) None None)
     ''post.title'' []
     = Inr ''NOT(post.title IS NULL)''
   \<and> computeFindOperatorExpression exampleDriver
       (FindOperator ''not'' (JNumber 3) True False None None None) ''post.id'' ['':where_0_0_00'']
     = Inr ''post.id != :where_0_0_00''"
  using not_operator_expression
          [of "FindOperator ''not'' JUndefined True False
                 (Some (FindOperator ''isNull'' JUndefined False False None None None)) None None"
              "FindOperator ''isNull'' JUndefined False False None None None"
              exampleDriver "''post.title''" "[]"]
        not_operator_expression
          [of "FindOperator ''not'' (JNumber 3) True False None None None" _
              exampleDriver "''post.id''" "['':where_0_0_00'']"]
  by (simp add: computeFindOperatorExpression.simps
                  [of _ "FindOperator ''isNull'' JUndefined False False None None None"]
                parameterAt_def)

section \<open>The parameter ledger: properties\<close>

lemma map_of_setProperty:
  "k \<noteq> ''__proto__'' \<Longrightarrow> map_of (setProperty obj k v) k = Some v"
proof -
  assume k: "k \<noteq> ''__proto__''"
  have "map_of (map (\<lambda>(k', v'). if k' = k then (k', v) else (k', v')) obj) k = Some v"
    if "k \<in> set (map fst obj)" using that by (induction obj) auto
  moreover have "map_of (obj @ [(k, v)]) k = Some v" if "k \<notin> set (map fst obj)"
    using that by (induction obj) auto
  ultimately show ?thesis using k by (simp add: setProperty_def)
qed

text \<open>
  C9 (as amended).  When the main alias's entity declares single-table inheritance (a
  discriminator column and a parent entity), \<^verbatim>\<open>getParameters\<close> returns an object whose
  entry \<^verbatim>\<open>discriminatorColumnValues\<close> is the array of the discriminator values of the
  entity's own child entities that have a discriminator column, followed by the entity's
  own value, whatever the stored parameters are; the values of its siblings (the other
  children of its parent) are not read.  The call leaves the builder, and with it the
  stored parameters, as they were.
\<close>

theorem getParameters_discriminator:
  assumes "mainAlias (expressionMap qb) = Some a"
    and "aliasMetadata a = Some md"
    and "discriminatorColumn md \<noteq> None"
    and "parentEntityMetadata md \<noteq> None"
  shows "map_of (fst (getParameters qb)) ''discriminatorColumnValues''
           = Some (JArray (map discriminatorValue
                             (filter (\<lambda>childMetadata. discriminatorColumn childMetadata \<noteq> None)
                                (childEntityMetadatas md))
                           @ [discriminatorValue md]))
       \<and> snd (getParameters qb) = qb
       \<and> parameters (expressionMap (snd (getParameters qb))) = parameters (expressionMap qb)"
  using assms
  by (simp add: getParameters_def Let_def map_of_setProperty discriminatorColumnValues_def)

theorem getParameters_discriminator_witness:
  "parameters (expressionMap catBuilder) = []
   \<and> map_of (fst (getParameters catBuilder)) ''discriminatorColumnValues''
       = Some (JArray [JString ''dog'', JString ''bird'', JString ''cat''])
   \<and> parameters (expressionMap (snd (getParameters catBuilder))) = []"
  using getParameters_discriminator [of catBuilder
          "\<lparr>aliasName = ''cat'', aliasMetadata = Some catMetadata\<rparr>" catMetadata]
  by (simp add: catBuilder_def catMetadata_def animalChild_def exampleExpressionMap_def)

text \<open>
  C9, the claim as stated: own value cat, siblings dog and bird.  The parent lists all
  three as its children, cat has no children, and the derived array holds cat alone.
\<close>

theorem getParameters_siblings_counterexample:
  "parentEntityMetadata siblingCatMetadata = Some animalMetadata
   \<and> map discriminatorValue (childEntityMetadatas animalMetadata)
       = [JString ''cat'', JString ''dog'', JString ''bird'']
   \<and> discriminatorValue siblingCatMetadata = JString ''cat''
   \<and> map_of (fst (getParameters siblingCatBuilder)) ''discriminatorColumnValues''
       = Some (JArray [JString ''cat''])"
  by (simp add: getParameters_def Let_def map_of_setProperty discriminatorColumnValues_def
        siblingCatBuilder_def siblingCatMetadata_def animalMetadata_def animalChild_def
        exampleExpressionMap_def)

text \<open>
  C6.  \<^verbatim>\<open>setParameters\<close> rejects a function value with the error of the source, but
  \<^verbatim>\<open>setParameter\<close> has no such check: given a function it stores it and returns.
\<close>

theorem setParameter_accepts_function:
  "setParameter exampleBuilder ''x'' (JFunction ''() => 1'')
     = QueryBuilder exampleConnection
         (exampleExpressionMap\<lparr>parameters := [(''x'', JFunction ''() => 1'')]\<rparr>) None
   \<and> setParameters exampleBuilder [(''x'', JFunction ''() => 1'')]
     = Inl (Error (functionParameterMessage ''x''))"
  by (simp add: setParameter_def exampleBuilder_def withExpressionMap_def setProperty_def
        exampleExpressionMap_def objectKeys_def isArrayIndex_def isDigit_def getProperty_def)

section \<open>Comments: properties\<close>

lemma replaceFirst_first:
  assumes "pat \<noteq> []"
    and "\<forall>u' v'. u @ pat @ v = u' @ pat @ v' \<longrightarrow> length u \<le> length u'"
  shows "replaceFirst pat rep (u @ pat @ v) = u @ rep @ v"
  using assms(2)
proof (induction u)
  case Nil
  from assms(1) obtain c t where "pat = c # t" by (cases pat) auto
  then show ?case by simp
next
  case (Cons c u)
  have no: "take (length pat) (c # u @ pat @ v) \<noteq> pat"
  proof
    assume "take (length pat) (c # u @ pat @ v) = pat"
    then have "(c # u) @ pat @ v = [] @ pat @ drop (length pat) (c # u @ pat @ v)"
      by (metis append_Cons append_Nil append_take_drop_id)
    with Cons.prems have "length (c # u) \<le> length ([] :: string)" by blast
    then show False by simp
  qed
  have "\<forall>u' v'. u @ pat @ v = u' @ pat @ v' \<longrightarrow> length u \<le> length u'"
  proof (intro allI impI)
    fix u' v' assume "u @ pat @ v = u' @ pat @ v'"
    then have "(c # u) @ pat @ v = (c # u') @ pat @ v'" by simp
    with Cons.prems have "length (c # u) \<le> length (c # u')" by blast
    then show "length u \<le> length u'" by simp
  qed
  with Cons.IH have "replaceFirst pat rep (u @ pat @ v) = u @ rep @ v" by blast
  with no show ?case by simp
qed

lemma replaceFirst_absent:
  "pat \<noteq> [] \<Longrightarrow> \<forall>u v. s \<noteq> u @ pat @ v \<Longrightarrow> replaceFirst pat rep s = s"
proof (induction s)
  case Nil
  then show ?case by simp
next
  case (Cons c s)
  have no: "take (length pat) (c # s) \<noteq> pat"
  proof
    assume "take (length pat) (c # s) = pat"
    then have "c # s = [] @ pat @ drop (length pat) (c # s)"
      by (metis append_Nil append_take_drop_id)
    with Cons.prems(2) show False by blast
  qed
  have "\<forall>u v. s \<noteq> u @ pat @ v"
  proof (intro allI notI)
    fix u v assume "s = u @ pat @ v"
    then have "c # s = (c # u) @ pat @ v" by simp
    with Cons.prems(2) show False by blast
  qed
  with Cons.IH Cons.prems(1) have "replaceFirst pat rep s = s" by blast
  with no show ?case by simp
qed

text \<open>
  C10.  For every non-empty comment \<open>s\<close>, \<^verbatim>\<open>createComment\<close> returns \<^verbatim>\<open>/* \<close>, then \<open>s\<close>
  with the first occurrence of the terminator \<^verbatim>\<open>*/\<close> deleted (all of \<open>s\<close> when it has
  none), then \<^verbatim>\<open> */ \<close>.  Only the first occurrence goes: the comment \<^verbatim>\<open>a*/b*/c\<close> is
  rendered with a terminator left inside its body.
\<close>

theorem createComment_first_terminator:
  assumes "comment (expressionMap qb) = Some s" and "s \<noteq> []"
  shows "createComment qb = ''/* '' @ replaceFirst ''*/'' [] s @ '' */ ''
       \<and> (\<forall>u v. s = u @ ''*/'' @ v
                  \<and> (\<forall>u' v'. s = u' @ ''*/'' @ v' \<longrightarrow> length u \<le> length u')
              \<longrightarrow> createComment qb = ''/* '' @ u @ v @ '' */ '')
       \<and> ((\<forall>u v. s \<noteq> u @ ''*/'' @ v) \<longrightarrow> createComment qb = ''/* '' @ s @ '' */ '')
       \<and> createComment (commentBuilder ''a*/b*/c'') = ''/* ab*/c */ ''"
proof -
  have example: "createComment (commentBuilder ''a*/b*/c'') = ''/* ab*/c */ ''"
    by (simp add: createComment_def commentBuilder_def)
  have first: "createComment qb = ''/* '' @ replaceFirst ''*/'' [] s @ '' */ ''"
    using assms by (simp add: createComment_def)
  have "replaceFirst ''*/'' [] s = u @ v"
    if "s = u @ ''*/'' @ v" "\<forall>u' v'. s = u' @ ''*/'' @ v' \<longrightarrow> length u \<le> length u'" for u v
    using replaceFirst_first [of "''*/''" u v "[]"] that by simp
  moreover have "replaceFirst ''*/'' [] s = s" if "\<forall>u v. s \<noteq> u @ ''*/'' @ v"
    using replaceFirst_absent [of "''*/''" s "[]"] that by simp
  ultimately show ?thesis using first example by auto
qed

theorem createComment_first_terminator_witness:
  "comment (expressionMap (commentBuilder ''x*/y'')) = Some ''x*/y''
   \<and> createComment (commentBuilder ''x*/y'') = ''/* xy */ ''
   \<and> createComment (commentBuilder ''plain'') = ''/* plain */ ''"
  using createComment_first_terminator [of "commentBuilder ''x*/y''" "''x*/y''"]
        createComment_first_terminator [of "commentBuilder ''plain''" "''plain''"]
  by (simp add: commentBuilder_def)

section \<open>The WHERE compiler: properties\<close>





section \<open>The substitution engine: whole-token matching\<close>

lemma matchKeys_Some:
  "matchKeys pfx keys s = Some (key, rest) \<Longrightarrow>
   key \<in> set keys \<and> s = pfx @ key @ rest \<and> lookahead rest"
proof (induction keys)
  case Nil
  then show ?case by simp
next
  case (Cons k ks)
  show ?case
  proof (cases "take (length (pfx @ k)) s = pfx @ k \<and> lookahead (drop (length (pfx @ k)) s)")
    case True
    with Cons.prems have eq: "key = k" "rest = drop (length (pfx @ k)) s" by auto
    have "take (length (pfx @ k)) s @ drop (length (pfx @ k)) s = s"
      by (rule append_take_drop_id)
    with True eq have "(pfx @ key) @ rest = s" by metis
    with True eq show ?thesis by simp
  next
    case False
    with Cons show ?thesis by auto
  qed
qed

lemma matchAt_Some:
  assumes "matchAt pfx keys b s = Some (pre, key, rest)"
  shows "key \<in> set keys \<and> s = pre @ pfx @ key @ rest \<and> lookahead rest
       \<and> ((\<exists>c. pre = [c] \<and> isLeftBoundary c) \<or> (pre = [] \<and> b))"
proof (cases "\<exists>c t. s = c # t \<and> isLeftBoundary c \<and> matchKeys pfx keys t \<noteq> None")
  case True
  then obtain c t k r where s: "s = c # t" "isLeftBoundary c" "matchKeys pfx keys t = Some (k, r)"
    by auto
  with assms have "pre = [c]" "key = k" "rest = r" by (simp_all add: matchAt_def)
  with s matchKeys_Some [OF s(3)] show ?thesis by simp
next
  case False
  have first: "(case s of [] \<Rightarrow> None
                     | c # t \<Rightarrow> if isLeftBoundary c then matchKeys pfx keys t else None) = None"
  proof (cases s)
    case Nil
    then show ?thesis by simp
  next
    case (Cons c t)
    show ?thesis
    proof (cases "isLeftBoundary c")
      case True
      with False Cons have "matchKeys pfx keys t = None" by blast
      with Cons show ?thesis by simp
    next
      case False
      with Cons show ?thesis by simp
    qed
  qed
  with assms have b: "b" and m: "matchKeys pfx keys s = Some (key, rest)" and pre: "pre = []"
    by (auto simp: matchAt_def split: if_splits option.splits)
  with matchKeys_Some [OF m] show ?thesis by simp
qed

lemma regexScan_None:
  "matchAt pfx keys b s = None \<Longrightarrow>
   regexScan pfx keys b s
     = (case s of [] \<Rightarrow> [] | c # t \<Rightarrow> Copied c # regexScan pfx keys (isLineTerminator c) t)"
  by (subst regexScan.simps) simp

lemma regexScan_Some:
  "matchAt pfx keys b s = Some (pre, key, rest) \<Longrightarrow> pre @ pfx @ key \<noteq> [] \<Longrightarrow>
   regexScan pfx keys b s
     = Matched pre key # regexScan pfx keys (isLineTerminator (last (pre @ pfx @ key))) rest"
  by (subst regexScan.simps) (simp del: append_is_Nil_conv)

lemma regexScan_Some_empty:
  "matchAt pfx keys b s = Some (pre, key, rest) \<Longrightarrow> pre @ pfx @ key = [] \<Longrightarrow>
   regexScan pfx keys b s
     = Matched pre key
         # (case s of [] \<Rightarrow> [] | c # t \<Rightarrow> Copied c # regexScan pfx keys (isLineTerminator c) t)"
  by (subst regexScan.simps) (simp del: append_is_Nil_conv)

lemma scan_source: "sourceText pfx (regexScan pfx keys b s) = s"
proof (induction s arbitrary: b rule: length_induct)
  case (1 s)
  then have IH: "\<And>t b'. length t < length s \<Longrightarrow> sourceText pfx (regexScan pfx keys b' t) = t"
    by blast
  have copy: "sourceText pfx
                (case s of [] \<Rightarrow> [] | c # t \<Rightarrow> Copied c # regexScan pfx keys (isLineTerminator c) t)
              = s"
  proof (cases s)
    case Nil
    then show ?thesis by (simp add: sourceText_def)
  next
    case (Cons c t)
    with IH [of t "isLineTerminator c"] show ?thesis by (simp add: sourceText_def)
  qed
  show ?case
  proof (cases "matchAt pfx keys b s")
    case None
    with copy show ?thesis by (simp add: regexScan_None)
  next
    case (Some m)
    obtain pre key rest where m: "m = (pre, key, rest)" by (cases m) auto
    from Some m matchAt_Some have s: "s = pre @ pfx @ key @ rest" by blast
    show ?thesis
    proof (cases "pre @ pfx @ key = []")
      case True
      from Some m have "matchAt pfx keys b s = Some (pre, key, rest)" by simp
      from regexScan_Some_empty [OF this True] copy True show ?thesis
        by (simp add: sourceText_def)
    next
      case False
      with s have "length rest < length s"
        by (metis Some m matchAt_shorter)
      from IH [OF this] have "sourceText pfx
          (regexScan pfx keys (isLineTerminator (last (pre @ pfx @ key))) rest) = rest" .
      moreover from Some m have "matchAt pfx keys b s = Some (pre, key, rest)" by simp
      note regexScan_Some [OF this False]
      ultimately show ?thesis using s
        by (simp add: sourceText_def)
    qed
  qed
qed


lemma sourceText_Cons [simp]:
  "sourceText pfx (p # ps) = pieceSource pfx p @ sourceText pfx ps"
  by (simp add: sourceText_def)

lemma sourceText_Nil [simp]: "sourceText pfx [] = []"
  by (simp add: sourceText_def)

lemma sourceText_append [simp]:
  "sourceText pfx (xs @ ys) = sourceText pfx xs @ sourceText pfx ys"
  by (simp add: sourceText_def)

lemma atLineStart_append:
  "m \<noteq> [] \<Longrightarrow> atLineStart (isLineTerminator (last m)) u = atLineStart b (m @ u)"
  by (simp add: atLineStart_def)

lemma scan_matched:
  "regexScan pfx keys b s = before @ Matched pre key # after \<Longrightarrow>
   key \<in> set keys
   \<and> ((\<exists>c. pre = [c] \<and> isLeftBoundary c) \<or> (pre = [] \<and> atLineStart b (sourceText pfx before)))
   \<and> lookahead (sourceText pfx after)"
proof (induction s arbitrary: b before rule: length_induct)
  case (1 s)
  let ?P = "\<lambda>b before. key \<in> set keys
     \<and> ((\<exists>c. pre = [c] \<and> isLeftBoundary c) \<or> (pre = [] \<and> atLineStart b (sourceText pfx before)))
     \<and> lookahead (sourceText pfx after)"
  from 1(1) have IH: "\<And>t b' bf. length t < length s \<Longrightarrow>
      regexScan pfx keys b' t = bf @ Matched pre key # after \<Longrightarrow> ?P b' bf"
    by blast
  let ?copy = "case s of [] \<Rightarrow> []
               | c # t \<Rightarrow> Copied c # regexScan pfx keys (isLineTerminator c) t"
  have copy_source: "sourceText pfx ?copy = s"
    by (cases s) (simp_all add: scan_source)
  have tail: "?P b' (m @ bf)" if eq: "?copy = bf @ Matched pre key # after"
    and m: "sourceText pfx m = []" for bf m b'
  proof (cases s)
    case Nil
    with eq show ?thesis by simp
  next
    case (Cons c t)
    with eq have "Copied c # regexScan pfx keys (isLineTerminator c) t = bf @ Matched pre key # after"
      by simp
    then obtain bf' where bf: "bf = Copied c # bf'"
      and t: "regexScan pfx keys (isLineTerminator c) t = bf' @ Matched pre key # after"
      by (cases bf) auto
    from Cons have "length t < length s" by simp
    from IH [OF this t] have P: "?P (isLineTerminator c) bf'" .
    have "atLineStart (isLineTerminator c) (sourceText pfx bf')
            = atLineStart b' (sourceText pfx (m @ bf))"
      using bf m atLineStart_append [of "[c]" "sourceText pfx bf'" b']
      by simp
    with P show ?thesis by simp
  qed
  show ?case
  proof (cases "matchAt pfx keys b s")
    case None
    with 1(2) have "?copy = before @ Matched pre key # after"
      by (simp add: regexScan_None)
    from tail [OF this, of "[]" b] show ?thesis by simp
  next
    case (Some x)
    obtain pre' key' rest where x: "x = (pre', key', rest)" by (cases x) auto
    with Some have M: "matchAt pfx keys b s = Some (pre', key', rest)" by simp
    note facts = matchAt_Some [OF M]
    from facts have k: "key' \<in> set keys" and la: "lookahead rest"
      and left: "(\<exists>c. pre' = [c] \<and> isLeftBoundary c) \<or> (pre' = [] \<and> b)"
      and split: "s = pre' @ pfx @ key' @ rest"
      by simp_all
    show ?thesis
    proof (cases "pre' @ pfx @ key' = []")
      case True
      from regexScan_Some_empty [OF M True] 1(2)
      have eq: "Matched pre' key' # ?copy = before @ Matched pre key # after" by simp
      show ?thesis
      proof (cases before)
        case Nil
        with eq have same: "pre = pre'" "key = key'" "after = ?copy" by simp_all
        from split True have "rest = s" by simp
        with la have "lookahead s" by simp
        with copy_source same have "lookahead (sourceText pfx after)" by simp
        with same k left Nil show ?thesis
          by (simp add: atLineStart_def)
      next
        case (Cons p bf)
        with eq have p: "p = Matched pre' key'" and c: "?copy = bf @ Matched pre key # after"
          by simp_all
        from True p have "sourceText pfx [p] = []" by simp
        from tail [OF c this, of b] Cons show ?thesis by simp
      qed
    next
      case False
      let ?b' = "isLineTerminator (last (pre' @ pfx @ key'))"
      from regexScan_Some [OF M False] 1(2)
      have eq: "Matched pre' key' # regexScan pfx keys ?b' rest
                  = before @ Matched pre key # after" by simp
      show ?thesis
      proof (cases before)
        case Nil
        with eq have same: "pre = pre'" "key = key'" "after = regexScan pfx keys ?b' rest"
          by auto
        then have "sourceText pfx after = rest" by (simp add: scan_source)
        with la same k left Nil show ?thesis
          by (simp add: atLineStart_def)
      next
        case (Cons p bf)
        with eq have p: "p = Matched pre' key'"
          and r: "regexScan pfx keys ?b' rest = bf @ Matched pre key # after"
          by simp_all
        have "length rest < length s" using M False by (rule matchAt_shorter)
        from IH [OF this r] have P: "?P ?b' bf" .
        have "atLineStart ?b' (sourceText pfx bf) = atLineStart b (sourceText pfx before)"
          using atLineStart_append [OF False, of "sourceText pfx bf" b] Cons p by simp
        with P show ?thesis by simp
      qed
    qed
  qed
qed


lemma matchKeys_no_keys: "matchKeys pfx [] s = None"
  by simp

lemma render_copied: "concat (map (renderPiece f) (map Copied s)) = s"
  by (induction s) simp_all

lemma regexScan_no_match:
  "(\<And>t b'. matchAt pfx keys b' t = None) \<Longrightarrow> regexScan pfx keys b s = map Copied s"
proof (induction s arbitrary: b)
  case Nil
  then show ?case by (simp add: regexScan_None)
next
  case (Cons c s)
  from Cons.prems have "matchAt pfx keys b (c # s) = None" by blast
  then have "regexScan pfx keys b (c # s) = Copied c # regexScan pfx keys (isLineTerminator c) s"
    by (simp add: regexScan_None)
  with Cons.IH [OF Cons.prems] show ?case by simp
qed

lemma regexScan_no_keys: "regexScan pfx [] b s = map Copied s"
  by (rule regexScan_no_match) (simp add: matchAt_def split: list.splits)

lemma matchKeys_absent_char:
  "x \<in> set pfx \<Longrightarrow> x \<notin> set s \<Longrightarrow> matchKeys pfx keys s = None"
proof (induction keys)
  case Nil
  then show ?case by simp
next
  case (Cons k ks)
  have "take (length (pfx @ k)) s \<noteq> pfx @ k"
  proof
    assume "take (length (pfx @ k)) s = pfx @ k"
    then have "set (pfx @ k) \<subseteq> set s" by (metis set_take_subset)
    with Cons.prems show False by auto
  qed
  with Cons show ?case by simp
qed

lemma regexScan_absent_char:
  assumes "x \<in> set pfx" and "x \<notin> set s"
  shows "regexScan pfx keys b s = map Copied s"
  using assms(2)
proof (induction s arbitrary: b)
  case Nil
  have "matchAt pfx keys b [] = None"
    using matchKeys_absent_char [OF assms(1), of "[]" keys] by (simp add: matchAt_def)
  then show ?case by (simp add: regexScan_None)
next
  case (Cons c s)
  then have "x \<notin> set s" "x \<notin> set (c # s)" by simp_all
  then have "matchAt pfx keys b (c # s) = None"
    using matchKeys_absent_char [OF assms(1), of s keys]
          matchKeys_absent_char [OF assms(1), of "c # s" keys]
    by (simp add: matchAt_def)
  then have "regexScan pfx keys b (c # s) = Copied c # regexScan pfx keys (isLineTerminator c) s"
    by (simp add: regexScan_None)
  with Cons.IH [OF \<open>x \<notin> set s\<close>] show ?case by simp
qed

lemma idMetadata_replacements: "createReplacements idMetadata = Inr [(''id'', ''id'')]"
  by code_simp

lemma id_keys: "objectKeys [(''id'', ''id'')] = [''id'']"
  by code_simp

lemma middleName_scan:
  "regexScan [] [''id''] True ''middleName = :x'' = map Copied ''middleName = :x''"
  by code_simp

lemma middleName_unchanged:
  "replacePropertyNames (idBuilder conn em n parent) ''middleName = :x'' = Inr ''middleName = :x''"
proof (cases "aliasNamePrefixingEnabled em")
  case True
  have "regexScan (n @ ''.'') [''id''] True ''middleName = :x'' = map Copied ''middleName = :x''"
    by (rule regexScan_absent_char [of "CHR ''.''"]) simp_all
  then have "regexReplace (n @ ''.'') [''id''] f ''middleName = :x'' = ''middleName = :x''" for f
    unfolding regexReplace_def by (simp only: render_copied)
  with True show ?thesis
    by (simp add: replacePropertyNames_def replaceForAlias_def idBuilder_def
          idMetadata_replacements id_keys)
next
  case False
  have "regexReplace [] [''id''] f ''middleName = :x'' = ''middleName = :x''" for f
    unfolding regexReplace_def middleName_scan by (simp only: render_copied)
  with False show ?thesis
    by (simp add: replacePropertyNames_def replaceForAlias_def idBuilder_def
          idMetadata_replacements id_keys)
qed

lemma replaceForAlias_Inl: "replaceForAlias qb a (Inl e) = Inl e"
  by (simp add: replaceForAlias_def)

lemma fold_replaceForAlias_Inl: "fold (replaceForAlias qb) as (Inl e) = Inl e"
  by (induction as) (simp_all add: replaceForAlias_Inl)

lemma rightBoundedPrefixes_iff:
  "x \<in> set (rightBoundedPrefixes t) \<longleftrightarrow> (\<exists>v. t = x @ v \<and> lookahead v)"
proof
  assume "x \<in> set (rightBoundedPrefixes t)"
  then have "\<exists>n. x = take n t \<and> lookahead (drop n t)"
    by (auto simp: rightBoundedPrefixes_def simp del: upt_Suc)
  then obtain n where n: "x = take n t" "lookahead (drop n t)" by blast
  then have "t = x @ drop n t" by simp
  with n show "\<exists>v. t = x @ v \<and> lookahead v" by blast
next
  assume "\<exists>v. t = x @ v \<and> lookahead v"
  then obtain v where v: "t = x @ v" "lookahead v" by blast
  then have "take (length x) t = x" "drop (length x) t = v" "length x < Suc (length t)"
    by simp_all
  with v show "x \<in> set (rightBoundedPrefixes t)"
    unfolding rightBoundedPrefixes_def
    by (metis (mono_tags, lifting) atLeast0LessThan image_eqI lessThan_iff mem_Collect_eq
          set_filter set_map set_upt)
qed

lemma boundedStretches_later:
  "set (boundedStretches (atLineStart b m) u) \<subseteq> set (boundedStretches b (m @ u))"
proof (induction m arbitrary: b)
  case Nil
  show ?case by (simp add: atLineStart_def)
next
  case (Cons c m)
  have "atLineStart b (c # m) = atLineStart (isLineTerminator c) m"
    by (simp add: atLineStart_def)
  with Cons [of "isLineTerminator c"] show ?case by auto
qed

lemma boundedStretches_start:
  assumes "b" and "lookahead v"
  shows "x \<in> set (boundedStretches b (x @ v))"
proof -
  have "x \<in> set (rightBoundedPrefixes (x @ v))"
    using assms(2) by (auto simp: rightBoundedPrefixes_iff)
  then show ?thesis using assms(1) by (cases "x @ v") auto
qed

lemma boundedStretches_boundary:
  assumes "isLeftBoundary c" and "lookahead v"
  shows "x \<in> set (boundedStretches b (c # x @ v))"
proof -
  have "x \<in> set (rightBoundedPrefixes (x @ v))"
    using assms(2) by (auto simp: rightBoundedPrefixes_iff)
  then show ?thesis using assms(1) by (cases b) simp_all
qed

lemma matched_stretch:
  assumes "regexScan pfx keys b s = before @ Matched pre key # after"
  shows "pfx @ key \<in> set (boundedStretches b s)"
proof -
  let ?u = "sourceText pfx before" and ?v = "sourceText pfx after"
  from scan_matched [OF assms]
  have left: "(\<exists>c. pre = [c] \<and> isLeftBoundary c) \<or> (pre = [] \<and> atLineStart b ?u)"
    and right: "lookahead ?v" by simp_all
  have "sourceText pfx (regexScan pfx keys b s) = s" by (rule scan_source)
  with assms have s: "s = ?u @ pre @ (pfx @ key) @ ?v" by simp
  from left show ?thesis
  proof
    assume "\<exists>c. pre = [c] \<and> isLeftBoundary c"
    then obtain c where c: "pre = [c]" "isLeftBoundary c" by blast
    have "pfx @ key \<in> set (boundedStretches (atLineStart b ?u) (c # (pfx @ key) @ ?v))"
      using boundedStretches_boundary [OF c(2) right] .
    with boundedStretches_later [of b ?u "c # (pfx @ key) @ ?v"] s c show ?thesis by auto
  next
    assume "pre = [] \<and> atLineStart b ?u"
    then have p: "pre = []" "atLineStart b ?u" by simp_all
    have "pfx @ key \<in> set (boundedStretches (atLineStart b ?u) ((pfx @ key) @ ?v))"
      using boundedStretches_start [OF p(2) right] .
    with boundedStretches_later [of b ?u "(pfx @ key) @ ?v"] s p show ?thesis by auto
  qed
qed

lemma scan_unchanged:
  assumes "\<forall>key \<in> set keys. pfx @ key \<in> set (boundedStretches True s) \<longrightarrow>
             (\<forall>pre. f pre key = pre @ pfx @ key)"
  shows "regexReplace pfx keys f s = s"
proof -
  let ?pieces = "regexScan pfx keys True s"
  have "renderPiece f p = pieceSource pfx p" if "p \<in> set ?pieces" for p
  proof (cases p)
    case (Copied c)
    then show ?thesis by simp
  next
    case (Matched pre key)
    with that obtain before after where split: "?pieces = before @ Matched pre key # after"
      by (metis in_set_conv_decomp)
    from scan_matched [OF split] have "key \<in> set keys" by simp
    with matched_stretch [OF split] assms Matched show ?thesis by simp
  qed
  then have "map (renderPiece f) ?pieces = map (pieceSource pfx) ?pieces" by simp
  then have "regexReplace pfx keys f s = sourceText pfx ?pieces"
    unfolding regexReplace_def sourceText_def by (rule arg_cong [where f = concat])
  then show ?thesis by (simp add: scan_source)
qed

lemma replaceForAlias_unchanged:
  assumes run: "replaceForAlias qb a (Inr s) = Inr t"
    and same: "\<forall>(source, target) \<in> set (aliasSubstitutions qb a).
                 source \<in> set (boundedStretches True s) \<longrightarrow> target = source"
  shows "t = s"
proof (cases "aliasMetadata a")
  case None
  with run show ?thesis by (simp add: replaceForAlias_def)
next
  case (Some md)
  show ?thesis
  proof (cases "createReplacements md")
    case (Inl e)
    with Some run show ?thesis by (simp add: replaceForAlias_def)
  next
    case (Inr T)
    let ?pfx = "if aliasNamePrefixingEnabled (expressionMap qb) then aliasName a @ ''.'' else []"
    let ?w = "if aliasNamePrefixingEnabled (expressionMap qb)
              then escape qb (aliasName a) @ ''.'' else []"
    let ?f = "\<lambda>pre p. pre @ ?w @ escape qb (getReplacement T p)"
    have subs: "aliasSubstitutions qb a
                  = map (\<lambda>p. (?pfx @ p, ?w @ escape qb (getReplacement T p))) (objectKeys T)"
      using Some Inr by (simp add: aliasSubstitutions_def)
    have "\<forall>key \<in> set (objectKeys T). ?pfx @ key \<in> set (boundedStretches True s) \<longrightarrow>
            (\<forall>pre. ?f pre key = pre @ ?pfx @ key)"
      using same unfolding subs by auto
    then have "regexReplace ?pfx (objectKeys T) ?f s = s" by (rule scan_unchanged)
    with Some Inr run show ?thesis
      by (simp add: replaceForAlias_def Let_def split: if_splits)
  qed
qed

lemma fold_unchanged:
  assumes "fold (replaceForAlias qb) as (Inr s) = Inr t"
    and "\<forall>a \<in> set as. \<forall>(source, target) \<in> set (aliasSubstitutions qb a).
            source \<in> set (boundedStretches True s) \<longrightarrow> target = source"
  shows "t = s"
  using assms
proof (induction as)
  case Nil
  then show ?case by simp
next
  case (Cons a as)
  show ?case
  proof (cases "replaceForAlias qb a (Inr s)")
    case (Inl e)
    with Cons.prems(1) show ?thesis by (simp add: fold_replaceForAlias_Inl)
  next
    case (Inr s')
    have "s' = s" using Inr Cons.prems(2) by (intro replaceForAlias_unchanged) auto
    with Inr Cons show ?thesis by simp
  qed
qed

lemma replacePropertyNames_unchanged:
  assumes "replacePropertyNames qb s = Inr t"
    and "\<forall>(source, target) \<in> set (substitutions qb).
            source \<in> set (boundedStretches True s) \<longrightarrow> target = source"
  shows "t = s"
  using assms(1) unfolding replacePropertyNames_def
proof (rule fold_unchanged)
  show "\<forall>a \<in> set (aliases (expressionMap qb)). \<forall>(source, target) \<in> set (aliasSubstitutions qb a).
            source \<in> set (boundedStretches True s) \<longrightarrow> target = source"
    using assms(2) by (fastforce simp: substitutions_def)
qed

lemma middleName_stretches:
  "set (boundedStretches True ''middleName = :x'')
     = set [''middleName'', ''middleName '', ''middleName ='', ''middleName = :x'',
            [], ''='', ''= :x'', '' :x'', '':x'']"
  by code_simp

text \<open>
  C2 (as amended).  Substitution matches whole tokens only.  \<^verbatim>\<open>replacePropertyNames\<close> makes
  one pass for every alias.  In the pass for a mapped alias, at whatever place in the list
  of aliases, the statement as the earlier passes have left it is cut into copied
  characters and matches, and the text handed to the later passes is rebuilt from them.
  Every match is the alias prefix (when prefixing is on) and a key of the replacement
  table that is immediately preceded by a space, \<^verbatim>\<open>=\<close> or \<^verbatim>\<open>(\<close> (which the match takes
  along), or stands at the start of a line (the start of the text or right after a line
  terminator), and that is immediately followed by a space, \<^verbatim>\<open>=\<close>, \<^verbatim>\<open>)\<close>, \<^verbatim>\<open>,\<close>, a line
  terminator or the end of the text.

  In particular the text \<^verbatim>\<open>middleName = :x\<close> is returned unchanged by every builder, whatever
  its aliases, their entities, the prefixing flag and the escaping are, unless an
  alias-prefixed key is itself one of the nine stretches of this text that lie between
  such boundaries and is written differently from how it stands.  No text that ends in
  \<^verbatim>\<open>id\<close> is one of these stretches: neither the key \<^verbatim>\<open>id\<close> nor an alias-prefixed
  \<^verbatim>\<open>alias.id\<close> is ever matched inside \<^verbatim>\<open>middleName\<close>.
\<close>

theorem whole_token_matching:
  assumes loop: "aliases (expressionMap qb) = earlier @ a # later"
    and sofar: "fold (replaceForAlias qb) earlier (Inr statement) = Inr s"
    and md: "aliasMetadata a = Some md"
    and rs: "createReplacements md = Inr replacements"
  shows "(\<exists>pieces.
            replacePropertyNames qb statement
              = fold (replaceForAlias qb) later
                  (Inr (concat (map (renderPiece
                       (\<lambda>pre p. pre
                          @ (if aliasNamePrefixingEnabled (expressionMap qb)
                             then escape qb (aliasName a) @ ''.'' else [])
                          @ escape qb (getReplacement replacements p))) pieces)))
          \<and> sourceText (if aliasNamePrefixingEnabled (expressionMap qb)
                         then aliasName a @ ''.'' else []) pieces = s
          \<and> (\<forall>before pre key after. pieces = before @ Matched pre key # after \<longrightarrow>
                key \<in> set (objectKeys replacements)
              \<and> (pre = '' '' \<or> pre = ''='' \<or> pre = ''(''
                  \<or> (pre = []
                      \<and> (sourceText (if aliasNamePrefixingEnabled (expressionMap qb)
                                       then aliasName a @ ''.'' else []) before = []
                          \<or> isLineTerminator
                               (last (sourceText (if aliasNamePrefixingEnabled (expressionMap qb)
                                                  then aliasName a @ ''.'' else []) before)))))
              \<and> (sourceText (if aliasNamePrefixingEnabled (expressionMap qb)
                               then aliasName a @ ''.'' else []) after = []
                  \<or> (\<exists>c t. sourceText (if aliasNamePrefixingEnabled (expressionMap qb)
                                         then aliasName a @ ''.'' else []) after = c # t
                           \<and> (c = CHR '' '' \<or> c = CHR ''='' \<or> c = CHR '')'' \<or> c = CHR '',''
                               \<or> isLineTerminator c)))))
       \<and> (replacePropertyNames builder ''middleName = :x'' = Inr result
            \<and> (\<forall>(source, target) \<in> set (substitutions builder).
                  source \<in> set [''middleName'', ''middleName '', ''middleName ='',
                                 ''middleName = :x'', [], ''='', ''= :x'', '' :x'', '':x'']
                  \<longrightarrow> target = source)
          \<longrightarrow> result = ''middleName = :x'')
       \<and> (\<forall>name. name @ ''id''
              \<notin> set [''middleName'', ''middleName '', ''middleName ='',
                      ''middleName = :x'', [], ''='', ''= :x'', '' :x'', '':x''])
       \<and> replacePropertyNames (idBuilder conn em n parent) ''middleName = :x''
           = Inr ''middleName = :x''"
proof -
  let ?pfx = "if aliasNamePrefixingEnabled (expressionMap qb) then aliasName a @ ''.'' else []"
  let ?keys = "objectKeys replacements"
  let ?f = "\<lambda>pre p. pre
              @ (if aliasNamePrefixingEnabled (expressionMap qb)
                 then escape qb (aliasName a) @ ''.'' else [])
              @ escape qb (getReplacement replacements p)"
  let ?pieces = "regexScan ?pfx ?keys True s"
  have "regexReplace ?pfx [] ?f s = s"
    by (simp only: regexReplace_def regexScan_no_keys render_copied)
  then have pass: "replaceForAlias qb a (Inr s) = Inr (concat (map (renderPiece ?f) ?pieces))"
    using md rs by (cases "?keys") (simp_all add: replaceForAlias_def regexReplace_def Let_def)
  have run: "replacePropertyNames qb statement
               = fold (replaceForAlias qb) later (Inr (concat (map (renderPiece ?f) ?pieces)))"
    unfolding replacePropertyNames_def loop by (simp add: sofar pass)
  have src: "sourceText ?pfx ?pieces = s"
    by (rule scan_source)
  have matched: "key \<in> set ?keys
      \<and> (pre = '' '' \<or> pre = ''='' \<or> pre = ''(''
          \<or> (pre = [] \<and> (sourceText ?pfx before = []
                           \<or> isLineTerminator (last (sourceText ?pfx before)))))
      \<and> (sourceText ?pfx after = []
          \<or> (\<exists>c t. sourceText ?pfx after = c # t
                   \<and> (c = CHR '' '' \<or> c = CHR ''='' \<or> c = CHR '')'' \<or> c = CHR '',''
                       \<or> isLineTerminator c)))"
    if "?pieces = before @ Matched pre key # after" for before pre key after
  proof -
    from scan_matched [OF that]
    have k: "key \<in> set ?keys"
      and left: "(\<exists>c. pre = [c] \<and> isLeftBoundary c)
                 \<or> (pre = [] \<and> atLineStart True (sourceText ?pfx before))"
      and right: "lookahead (sourceText ?pfx after)"
      by simp_all
    from left have "pre = '' '' \<or> pre = ''='' \<or> pre = ''(''
          \<or> (pre = [] \<and> (sourceText ?pfx before = []
                           \<or> isLineTerminator (last (sourceText ?pfx before))))"
      by (auto simp: isLeftBoundary_def atLineStart_def split: if_splits)
    moreover from right have "sourceText ?pfx after = []
          \<or> (\<exists>c t. sourceText ?pfx after = c # t
                   \<and> (c = CHR '' '' \<or> c = CHR ''='' \<or> c = CHR '')'' \<or> c = CHR '',''
                       \<or> isLineTerminator c))"
      by (cases "sourceText ?pfx after") (auto simp: isRightBoundary_def)
    ultimately show ?thesis using k by blast
  qed
  have general: "\<exists>pieces.
            replacePropertyNames qb statement
              = fold (replaceForAlias qb) later (Inr (concat (map (renderPiece ?f) pieces)))
          \<and> sourceText ?pfx pieces = s
          \<and> (\<forall>before pre key after. pieces = before @ Matched pre key # after \<longrightarrow>
                key \<in> set ?keys
              \<and> (pre = '' '' \<or> pre = ''='' \<or> pre = ''(''
                  \<or> (pre = [] \<and> (sourceText ?pfx before = []
                                   \<or> isLineTerminator (last (sourceText ?pfx before)))))
              \<and> (sourceText ?pfx after = []
                  \<or> (\<exists>c t. sourceText ?pfx after = c # t
                           \<and> (c = CHR '' '' \<or> c = CHR ''='' \<or> c = CHR '')'' \<or> c = CHR '',''
                               \<or> isLineTerminator c))))"
    using run src matched by blast
  have unchanged: "replacePropertyNames builder ''middleName = :x'' = Inr result
            \<and> (\<forall>(source, target) \<in> set (substitutions builder).
                  source \<in> set [''middleName'', ''middleName '', ''middleName ='',
                                 ''middleName = :x'', [], ''='', ''= :x'', '' :x'', '':x'']
                  \<longrightarrow> target = source)
          \<longrightarrow> result = ''middleName = :x''"
    using replacePropertyNames_unchanged [of builder "''middleName = :x''" result]
    unfolding middleName_stretches by blast
  have last: "last (name @ ''id'') = CHR ''d''" for name by simp
  have none: "\<forall>name. name @ ''id''
              \<notin> set [''middleName'', ''middleName '', ''middleName ='',
                      ''middleName = :x'', [], ''='', ''= :x'', '' :x'', '':x'']"
  proof
    fix name :: string
    show "name @ ''id'' \<notin> set [''middleName'', ''middleName '', ''middleName ='',
                      ''middleName = :x'', [], ''='', ''= :x'', '' :x'', '':x'']"
    proof
      assume "name @ ''id'' \<in> set [''middleName'', ''middleName '', ''middleName ='',
                      ''middleName = :x'', [], ''='', ''= :x'', '' :x'', '':x'']"
      then have "last (name @ ''id'') \<in> last ` set [''middleName'', ''middleName '', ''middleName ='',
                      ''middleName = :x'', ''='', ''= :x'', '' :x'', '':x'']"
        by (auto simp del: last_appendR last_append)
      then show False unfolding last by simp
    qed
  qed
  from general unchanged none middleName_unchanged show ?thesis by blast
qed

theorem whole_token_matching_witness:
  "aliases (expressionMap (postBuilder [])) = [] @ postAlias # []
   \<and> fold (replaceForAlias (postBuilder [])) [] (Inr ''(post.id = :id)'') = Inr ''(post.id = :id)''
   \<and> aliasMetadata postAlias = Some postMetadata
   \<and> createReplacements postMetadata = Inr postReplacements
   \<and> replacePropertyNames (postBuilder []) ''(post.id = :id)'' = Inr ''([post].[post_id] = :id)''
   \<and> (\<exists>pieces.
          replacePropertyNames (postBuilder []) ''(post.id = :id)''
            = Inr (concat (map (renderPiece
                     (\<lambda>pre p. pre @ (escape (postBuilder []) (aliasName postAlias) @ ''.'')
                        @ escape (postBuilder []) (getReplacement postReplacements p))) pieces))
        \<and> sourceText (aliasName postAlias @ ''.'') pieces = ''(post.id = :id)'')
   \<and> substitutions (plainBuilder False [(''user'', userMetadata)])
       = [(''user_id'', ''user_id''), (''title'', ''title''), (''id'', ''user_id'')]
   \<and> replacePropertyNames (plainBuilder False [(''user'', userMetadata)]) ''middleName = :x''
       = Inr ''middleName = :x''
   \<and> replacePropertyNames (plainBuilder True [(''user'', userMetadata)]) ''middleName = :x''
       = Inr ''middleName = :x''"
proof -
  let ?user = "plainBuilder False [(''user'', userMetadata)]"
  have h0: "aliases (expressionMap (postBuilder [])) = [] @ postAlias # []"
    by (simp add: postBuilder_def exampleExpressionMap_def)
  have h0': "fold (replaceForAlias (postBuilder [])) [] (Inr ''(post.id = :id)'')
               = Inr ''(post.id = :id)''"
    by simp
  have h1: "aliasMetadata postAlias = Some postMetadata"
    by (simp add: postAlias_def)
  have h2: "createReplacements postMetadata = Inr postReplacements"
    by code_simp
  have h3: "replacePropertyNames (postBuilder []) ''(post.id = :id)''
              = Inr ''([post].[post_id] = :id)''"
    by code_simp
  have p: "aliasNamePrefixingEnabled (expressionMap (postBuilder []))"
    by (simp add: postBuilder_def exampleExpressionMap_def)
  have u1: "substitutions ?user
              = [(''user_id'', ''user_id''), (''title'', ''title''), (''id'', ''user_id'')]"
    by code_simp
  have u2: "replacePropertyNames ?user ''middleName = :x'' = Inr ''middleName = :x''"
    by code_simp
  have u3: "replacePropertyNames (plainBuilder True [(''user'', userMetadata)]) ''middleName = :x''
              = Inr ''middleName = :x''"
    by code_simp
  have u4: "\<forall>(source, target) \<in> set (substitutions ?user).
              source \<in> set [''middleName'', ''middleName '', ''middleName ='',
                             ''middleName = :x'', [], ''='', ''= :x'', '' :x'', '':x'']
              \<longrightarrow> target = source"
    unfolding u1 by simp
  note inst = whole_token_matching [OF h0 h0' h1 h2,
      where builder = ?user and result = "''middleName = :x''"]
  from inst obtain pieces where
    "replacePropertyNames (postBuilder []) ''(post.id = :id)''
       = fold (replaceForAlias (postBuilder [])) []
           (Inr (concat (map (renderPiece
                (\<lambda>pre p. pre
                   @ (if aliasNamePrefixingEnabled (expressionMap (postBuilder []))
                      then escape (postBuilder []) (aliasName postAlias) @ ''.'' else [])
                   @ escape (postBuilder []) (getReplacement postReplacements p))) pieces)))"
    "sourceText (if aliasNamePrefixingEnabled (expressionMap (postBuilder []))
                 then aliasName postAlias @ ''.'' else []) pieces = ''(post.id = :id)''"
    by blast
  with p have "\<exists>pieces.
          replacePropertyNames (postBuilder []) ''(post.id = :id)''
            = Inr (concat (map (renderPiece
                     (\<lambda>pre p. pre @ (escape (postBuilder []) (aliasName postAlias) @ ''.'')
                        @ escape (postBuilder []) (getReplacement postReplacements p))) pieces))
        \<and> sourceText (aliasName postAlias @ ''.'') pieces = ''(post.id = :id)''"
    by (simp only: if_True fold_simps id_apply) blast
  moreover from inst u2 u4
  have "replacePropertyNames ?user ''middleName = :x'' = Inr ''middleName = :x''" by blast
  ultimately show ?thesis using h0 h0' h1 h2 h3 u1 u3 by blast
qed

text \<open>
  C2, the claim as stated.  It names the start and the end of the string only, but the
  pattern has the flag \<^verbatim>\<open>m\<close>: a key on a line of its own, between two line feeds, is
  replaced.  And an entity with a property \<^verbatim>\<open>id\<close> can have a property \<^verbatim>\<open>middleName\<close> as
  well: with prefixing off, the whole token \<^verbatim>\<open>middleName\<close> is then replaced by its column.
\<close>

theorem whole_token_counterexample:
  "replacePropertyNames (postBuilder []) (''a'' @ [CHR 0x0A] @ ''post.id'' @ [CHR 0x0A] @ ''b'')
     = Inr (''a'' @ [CHR 0x0A] @ ''[post].[post_id]'' @ [CHR 0x0A] @ ''b'')
   \<and> regexScan ''post.'' (objectKeys postReplacements) True
        (''a'' @ [CHR 0x0A] @ ''post.id'' @ [CHR 0x0A] @ ''b'')
     = [Copied (CHR ''a''), Copied (CHR 0x0A), Matched [] ''id'', Copied (CHR 0x0A),
        Copied (CHR ''b'')]
   \<and> replacePropertyNames (plainBuilder False [(''person'', personMetadata)]) ''middleName = :x''
     = Inr ''middle_name = :x''"
  by code_simp

section \<open>The substitution engine: idempotence\<close>

lemma leftBoundary_delimiter: "isLeftBoundary c \<Longrightarrow> isDelimiter c"
  by (simp add: isDelimiter_def)

lemma leftBoundary_not_terminator: "isLeftBoundary c \<Longrightarrow> \<not> isLineTerminator c"
  by (auto simp: isLeftBoundary_def isLineTerminator_def)

lemma terminator_delimiter: "isLineTerminator c \<Longrightarrow> isDelimiter c"
  by (simp add: isDelimiter_def)

lemma lookahead_delimiter: "lookahead s \<Longrightarrow> s = [] \<or> isDelimiter (hd s)"
  by (cases s) (auto simp: isDelimiter_def)

lemma token_split: "firstToken s @ afterToken s = s"
  by (simp add: firstToken_def afterToken_def)

lemma token_Cons_char:
  "\<not> isDelimiter c \<Longrightarrow> firstToken (c # t) = c # firstToken t \<and> afterToken (c # t) = afterToken t"
  by (simp add: firstToken_def afterToken_def)

lemma token_Cons_delimiter:
  "isDelimiter c \<Longrightarrow> firstToken (c # t) = [] \<and> afterToken (c # t) = c # t"
  by (simp add: firstToken_def afterToken_def)

lemma token_Nil: "firstToken [] = [] \<and> afterToken [] = []"
  by (simp add: firstToken_def afterToken_def)

lemma afterToken_delimiter: "afterToken s = [] \<or> isDelimiter (hd (afterToken s))"
  unfolding afterToken_def by (metis (mono_tags, lifting) hd_dropWhile)

lemma token_append:
  assumes "delimiterFree w" and "rest = [] \<or> isDelimiter (hd rest)"
  shows "firstToken (w @ rest) = w \<and> afterToken (w @ rest) = rest"
proof -
  from assms(1) have w: "\<forall>c \<in> set w. \<not> isDelimiter c"
    by (simp add: delimiterFree_def list_all_iff)
  show ?thesis
  proof (cases rest)
    case Nil
    with w show ?thesis by (simp add: firstToken_def afterToken_def)
  next
    case (Cons d r)
    with assms(2) have "isDelimiter d" by simp
    with w Cons show ?thesis
      by (simp add: firstToken_def afterToken_def takeWhile_append2 dropWhile_append2)
  qed
qed

lemma firstToken_free: "delimiterFree (firstToken s)"
  unfolding firstToken_def delimiterFree_def list_all_iff
  by (metis (mono_tags, lifting) set_takeWhileD)

lemma key_match_token:
  assumes "delimiterFree w"
  shows "(take (length w) t = w \<and> lookahead (drop (length w) t))
       = (w = firstToken t \<and> lookahead (afterToken t))"
proof
  assume l: "take (length w) t = w \<and> lookahead (drop (length w) t)"
  then have t: "t = w @ drop (length w) t" by (metis append_take_drop_id)
  from l have "drop (length w) t = [] \<or> isDelimiter (hd (drop (length w) t))"
    using lookahead_delimiter by blast
  from token_append [OF assms this] t l
  show "w = firstToken t \<and> lookahead (afterToken t)" by metis
next
  assume r: "w = firstToken t \<and> lookahead (afterToken t)"
  have "t = firstToken t @ afterToken t" by (simp add: token_split)
  with r have "t = w @ afterToken t" by simp
  then have "take (length w) t = w" "drop (length w) t = afterToken t"
    by (metis append_eq_conv_conj)+
  with r show "take (length w) t = w \<and> lookahead (drop (length w) t)" by simp
qed

lemma matchKeys_token:
  assumes "\<forall>k \<in> set keys. delimiterFree (pfx @ k)"
  shows "matchKeys pfx keys t
       = (if lookahead (afterToken t)
          then map_option (\<lambda>k. (k, afterToken t)) (find (\<lambda>k. pfx @ k = firstToken t) keys)
          else None)"
  using assms
proof (induction keys)
  case Nil
  then show ?case by simp
next
  case (Cons k ks)
  then have free: "delimiterFree (pfx @ k)" by simp
  show ?case
  proof (cases "pfx @ k = firstToken t \<and> lookahead (afterToken t)")
    case True
    with key_match_token [OF free, of t]
    have c: "take (length (pfx @ k)) t = pfx @ k \<and> lookahead (drop (length (pfx @ k)) t)"
      by simp
    have "t = firstToken t @ afterToken t" by (simp add: token_split)
    with True have "t = (pfx @ k) @ afterToken t" by simp
    then have "drop (length (pfx @ k)) t = afterToken t" by (metis append_eq_conv_conj)
    with c True show ?thesis by simp
  next
    case False
    with key_match_token [OF free, of t]
    have c: "\<not> (take (length (pfx @ k)) t = pfx @ k \<and> lookahead (drop (length (pfx @ k)) t))"
      by simp
    from Cons have "matchKeys pfx ks t
       = (if lookahead (afterToken t)
          then map_option (\<lambda>k. (k, afterToken t)) (find (\<lambda>k. pfx @ k = firstToken t) ks)
          else None)" by simp
    with c False show ?thesis by auto
  qed
qed

lemma tokenFunction_find:
  "tokenFunction (map (\<lambda>k. (pfx @ k, g k)) keys) tok
     = (case find (\<lambda>k. pfx @ k = tok) keys of Some k \<Rightarrow> g k | None \<Rightarrow> tok)"
  by (induction keys) (auto simp: tokenFunction_def)


lemma tokenMap_Nil: "F [] = [] \<Longrightarrow> tokenMap F b [] = []"
  by (subst tokenMap.simps) (simp add: token_Nil)

lemma tokenMap_delimiter:
  "F [] = [] \<Longrightarrow> isDelimiter d \<Longrightarrow>
   tokenMap F b (d # r) = d # tokenMap F (isLeftBoundary d \<or> isLineTerminator d) r"
  by (subst tokenMap.simps) (simp add: token_Cons_delimiter)

lemma tokenMap_unfold:
  assumes "F [] = []"
  shows "tokenMap F b s
       = (if b \<and> lookahead (afterToken s) then F (firstToken s) else firstToken s)
           @ tokenMap F False (afterToken s)"
proof -
  have "tokenMap F False (afterToken s)
          = (case afterToken s of
               [] \<Rightarrow> []
             | d # r \<Rightarrow> d # tokenMap F (isLeftBoundary d \<or> isLineTerminator d) r)"
  proof (cases "afterToken s")
    case Nil
    with assms show ?thesis by (simp add: tokenMap_Nil)
  next
    case (Cons d r)
    with afterToken_delimiter [of s] have "isDelimiter d" by simp
    with assms Cons show ?thesis by (simp add: tokenMap_delimiter)
  qed
  then show ?thesis by (subst tokenMap.simps) simp
qed

lemma tokenMap_False_char:
  assumes "F [] = []" and "\<not> isDelimiter c"
  shows "tokenMap F False (c # t) = c # tokenMap F False t"
  using tokenMap_unfold [of F False "c # t", OF assms(1)]
        tokenMap_unfold [of F False t, OF assms(1)]
        token_Cons_char [OF assms(2), of t]
  by simp

lemma afterToken_le: "length (afterToken s) \<le> length s"
  unfolding afterToken_def by (rule length_dropWhile_le)

lemma last_free:
  "delimiterFree w \<Longrightarrow> w \<noteq> [] \<Longrightarrow> \<not> isLineTerminator (last w)"
proof -
  assume "delimiterFree w" "w \<noteq> []"
  then have "\<not> isDelimiter (last w)"
    by (simp add: delimiterFree_def list_all_iff)
  then show ?thesis using terminator_delimiter by blast
qed

lemma scan_tokenMap:
  assumes H: "\<forall>k \<in> set keys. pfx @ k \<noteq> [] \<and> delimiterFree (pfx @ k)"
  shows "concat (map (renderPiece (\<lambda>pre k. pre @ g k)) (regexScan pfx keys b s))
       = tokenMap (tokenFunction (map (\<lambda>k. (pfx @ k, g k)) keys)) b s"
proof (induction s arbitrary: b rule: length_induct)
  case (1 s)
  let ?F = "tokenFunction (map (\<lambda>k. (pfx @ k, g k)) keys)"
  let ?R = "\<lambda>b s. concat (map (renderPiece (\<lambda>pre k. pre @ g k)) (regexScan pfx keys b s))"
  from 1 have IH: "\<And>t b'. length t < length s \<Longrightarrow> ?R b' t = tokenMap ?F b' t" by blast
  from H have free: "\<forall>k \<in> set keys. delimiterFree (pfx @ k)" by blast
  note mk = matchKeys_token [OF free]
  have noEmpty: "find (\<lambda>k. pfx @ k = []) keys = None"
    unfolding find_None_iff using H by blast
  then have F0: "?F [] = []" by (simp add: tokenFunction_find)
  have mkDelim: "matchKeys pfx keys (d # r) = None" if "isDelimiter d" for d r
    using mk [of "d # r"] token_Cons_delimiter [OF that, of r] noEmpty by simp
  have mkNil: "matchKeys pfx keys [] = None"
    using mk [of "[]"] token_Nil noEmpty by simp
  show ?case
  proof (cases s)
    case Nil
    have "matchAt pfx keys b [] = None"
      using mkNil by (simp add: matchAt_def)
    with Nil F0 show ?thesis by (simp add: regexScan_None tokenMap_Nil)
  next
    case (Cons c t)
    have lt: "length t < length s" using Cons by simp
    show ?thesis
    proof (cases "isDelimiter c")
      case False
      then have nlb: "\<not> isLeftBoundary c" using leftBoundary_delimiter by blast
      from False have nlt: "\<not> isLineTerminator c" using terminator_delimiter by blast
      have at: "matchAt pfx keys b s
                  = (if b then (case matchKeys pfx keys s of
                                  Some (k, rest) \<Rightarrow> Some ([], k, rest)
                                | None \<Rightarrow> None)
                     else None)"
        using Cons nlb by (simp add: matchAt_def)
      show ?thesis
      proof (cases "b \<and> lookahead (afterToken s) \<and> find (\<lambda>k. pfx @ k = firstToken s) keys \<noteq> None")
        case True
        then obtain k where k: "find (\<lambda>k. pfx @ k = firstToken s) keys = Some k" by blast
        then have kin: "k \<in> set keys" and tok: "pfx @ k = firstToken s"
          by (auto simp: find_Some_iff)
        from kin H have ne: "pfx @ k \<noteq> []" and fr: "delimiterFree (pfx @ k)" by blast+
        from True k at mk [of s] have M: "matchAt pfx keys b s = Some ([], k, afterToken s)"
          by simp
        from ne have ne': "[] @ pfx @ k \<noteq> []" by simp
        have shorter: "length (afterToken s) < length s"
          using M ne' by (rule matchAt_shorter)
        have "\<not> isLineTerminator (last ([] @ pfx @ k))"
          using last_free [OF fr ne] by simp
        with regexScan_Some [OF M ne']
        have "?R b s = g k @ ?R False (afterToken s)" by simp
        also have "\<dots> = g k @ tokenMap ?F False (afterToken s)"
          using IH [OF shorter] by simp
        also have "g k = ?F (firstToken s)"
          using k by (simp add: tokenFunction_find)
        finally show ?thesis
          using True tokenMap_unfold [of ?F b s, OF F0] by simp
      next
        case no: False
        with at mk [of s] have M: "matchAt pfx keys b s = None"
          by (auto split: option.splits)
        have X: "(if b \<and> lookahead (afterToken s) then ?F (firstToken s) else firstToken s)
                   = firstToken s"
          using no by (auto simp: tokenFunction_find)
        from M Cons nlt have "?R b s = c # ?R False t"
          by (simp add: regexScan_None)
        also have "\<dots> = c # tokenMap ?F False t" using IH [OF lt] by simp
        also have "\<dots> = tokenMap ?F False s"
          using tokenMap_False_char [of ?F c t, OF F0 False] Cons by simp
        also have "\<dots> = firstToken s @ tokenMap ?F False (afterToken s)"
          using tokenMap_unfold [of ?F False s, OF F0] by simp
        finally show ?thesis
          using X tokenMap_unfold [of ?F b s, OF F0] by simp
      qed
    next
      case delim: True
      have second: "matchKeys pfx keys s = None" using mkDelim [OF delim] Cons by simp
      show ?thesis
      proof (cases "isLeftBoundary c")
        case True
        then have nlt: "\<not> isLineTerminator c" by (rule leftBoundary_not_terminator)
        have tm: "tokenMap ?F b s = c # tokenMap ?F True t"
          using tokenMap_delimiter [of ?F c b t, OF F0 delim] True Cons by simp
        show ?thesis
        proof (cases "matchKeys pfx keys t")
          case None
          with second Cons True have M: "matchAt pfx keys b s = None"
            by (simp add: matchAt_def)
          from None mk [of t]
          have X: "(if True \<and> lookahead (afterToken t) then ?F (firstToken t) else firstToken t)
                     = firstToken t"
            by (auto simp: tokenFunction_find split: if_splits option.splits)
          from M Cons nlt have "?R b s = c # ?R False t"
            by (simp add: regexScan_None)
          also have "\<dots> = c # tokenMap ?F False t" using IH [OF lt] by simp
          also have "tokenMap ?F False t = firstToken t @ tokenMap ?F False (afterToken t)"
            using tokenMap_unfold [of ?F False t, OF F0] by simp
          also have "\<dots> = tokenMap ?F True t"
            using tokenMap_unfold [of ?F True t, OF F0] X by simp
          finally show ?thesis using tm by simp
        next
          case (Some m)
          obtain k rest where m: "m = (k, rest)" by (cases m) auto
          from Some m mk [of t] have la: "lookahead (afterToken t)"
            and k: "find (\<lambda>k. pfx @ k = firstToken t) keys = Some k"
            and rest: "rest = afterToken t"
            by (auto split: if_splits)
          from k have kin: "k \<in> set keys" by (auto simp: find_Some_iff)
          from kin H have ne: "pfx @ k \<noteq> []" and fr: "delimiterFree (pfx @ k)" by blast+
          from Some m Cons True have M: "matchAt pfx keys b s = Some ([c], k, rest)"
            by (simp add: matchAt_def)
          have ne': "[c] @ pfx @ k \<noteq> []" by simp
          have "last ([c] @ pfx @ k) = last (pfx @ k)" using ne by (metis last_appendR)
          then have "\<not> isLineTerminator (last ([c] @ pfx @ k))"
            using last_free [OF fr ne] by simp
          with regexScan_Some [OF M ne']
          have "?R b s = c # g k @ ?R False rest" by simp
          moreover have "length rest < length s"
            using rest afterToken_le [of t] lt by simp
          ultimately have "?R b s = c # g k @ tokenMap ?F False (afterToken t)"
            using IH rest by simp
          moreover have "tokenMap ?F True t = g k @ tokenMap ?F False (afterToken t)"
            using tokenMap_unfold [of ?F True t, OF F0] la k by (simp add: tokenFunction_find)
          ultimately show ?thesis using tm by simp
        qed
      next
        case False
        with second Cons have M: "matchAt pfx keys b s = None"
          by (simp add: matchAt_def)
        with Cons have "?R b s = c # ?R (isLineTerminator c) t"
          by (simp add: regexScan_None)
        also have "\<dots> = c # tokenMap ?F (isLineTerminator c) t" using IH [OF lt] by simp
        finally show ?thesis
          using tokenMap_delimiter [of ?F c b t, OF F0 delim] False Cons by simp
      qed
    qed
  qed
qed


lemma tokenMap_cong:
  "(\<And>tok. delimiterFree tok \<Longrightarrow> F tok = G tok) \<Longrightarrow> tokenMap F b s = tokenMap G b s"
proof (induction s arbitrary: b rule: length_induct)
  case (1 s)
  have first: "F (firstToken s) = G (firstToken s)"
    using 1(2) firstToken_free by blast
  have rest: "tokenMap F b' r = tokenMap G b' r" if "afterToken s = d # r" for d r b'
    using 1 afterToken_length [OF that] by blast
  show ?case
    by (subst tokenMap.simps, subst (2) tokenMap.simps)
       (auto simp: first rest split: list.splits)
qed

lemma tokenMap_ident: "(\<And>tok. F tok = tok) \<Longrightarrow> tokenMap F b s = s"
proof (induction s arbitrary: b rule: length_induct)
  case (1 s)
  have rest: "tokenMap F b' r = r" if "afterToken s = d # r" for d r b'
    using 1 afterToken_length [OF that] by blast
  have "tokenMap F b s = firstToken s @ afterToken s"
    by (subst tokenMap.simps) (auto simp: 1(2) rest split: list.splits)
  then show ?case by (simp add: token_split)
qed

lemma tokenFunction_Nil: "tokenFunction [] tok = tok"
  by (simp add: tokenFunction_def)

lemma tokenFunction_cases:
  "tokenFunction subs tok = tok \<or> (tok, tokenFunction subs tok) \<in> set subs"
  by (cases "map_of subs tok") (auto simp: tokenFunction_def dest: map_of_SomeD)

lemma resolved_of_result:
  "fold (replaceForAlias qb) as (Inr s) = Inr t \<Longrightarrow> a \<in> set as \<Longrightarrow>
   aliasMetadata a = Some md \<Longrightarrow> \<exists>T. createReplacements md = Inr T"
proof (induction as arbitrary: s)
  case Nil
  then show ?case by simp
next
  case (Cons x xs)
  show ?case
  proof (cases "replaceForAlias qb x (Inr s)")
    case (Inl e)
    with Cons.prems(1) show ?thesis by (simp add: fold_replaceForAlias_Inl)
  next
    case (Inr s')
    show ?thesis
    proof (cases "a = x")
      case True
      with Inr Cons.prems(3) show ?thesis
        by (cases "createReplacements md") (simp_all add: replaceForAlias_def)
    next
      case False
      with Cons.prems have "a \<in> set xs" by simp
      moreover from Inr Cons.prems(1) have "fold (replaceForAlias qb) xs (Inr s') = Inr t" by simp
      ultimately show ?thesis using Cons.IH Cons.prems(3) by blast
    qed
  qed
qed

lemma fold_token:
  assumes "\<And>a s. a \<in> set as \<Longrightarrow> replaceForAlias qb a (Inr s) = Inr (tokenMap (F a) True s)"
  shows "fold (replaceForAlias qb) as (Inr s) = Inr (fold (\<lambda>a. tokenMap (F a) True) as s)"
  using assms by (induction as arbitrary: s) simp_all

lemma token_alone: "delimiterFree w \<Longrightarrow> firstToken w = w \<and> afterToken w = []"
  using token_append [of w "[]"] by simp

lemma tokenMap_token:
  assumes "F [] = []" and "delimiterFree w"
  shows "tokenMap F b w = (if b then F w else w)"
  using tokenMap_unfold [of F b w, OF assms(1)] token_alone [OF assms(2)] assms(1)
  by (simp add: tokenMap_Nil)

lemma tokenMap_append:
  assumes F0: "F [] = []" and la: "lookahead rest"
  shows "tokenMap F b (w @ rest) = tokenMap F b w @ tokenMap F False rest"
proof (induction w arbitrary: b rule: length_induct)
  case (1 w)
  from la have restD: "rest = [] \<or> isDelimiter (hd rest)" by (rule lookahead_delimiter)
  show ?case
  proof (cases "delimiterFree w")
    case True
    from token_append [OF True restD]
    have tok: "firstToken (w @ rest) = w" "afterToken (w @ rest) = rest" by simp_all
    have "tokenMap F b (w @ rest) = (if b then F w else w) @ tokenMap F False rest"
      using tokenMap_unfold [of F b "w @ rest", OF F0] tok la by simp
    then show ?thesis by (simp add: tokenMap_token [where F = F, OF F0 True])
  next
    case False
    then obtain d where d: "d \<in> set w" "isDelimiter d"
      by (auto simp: delimiterFree_def list_all_iff)
    then have ex: "\<exists>c \<in> set w. \<not> \<not> isDelimiter c" by blast
    have ft: "firstToken (w @ rest) = firstToken w"
      unfolding firstToken_def using d by (intro takeWhile_append1) auto
    have at: "afterToken (w @ rest) = afterToken w @ rest"
      unfolding afterToken_def using d by (intro dropWhile_append1) auto
    from d have "afterToken w \<noteq> []"
      unfolding afterToken_def by (auto simp: dropWhile_eq_Nil_conv)
    then obtain e y where ey: "afterToken w = e # y" by (cases "afterToken w") auto
    with afterToken_delimiter [of w] have e: "isDelimiter e" by simp
    from afterToken_length [OF ey] have "length y < length w" .
    with 1 have IH: "tokenMap F b' (y @ rest) = tokenMap F b' y @ tokenMap F False rest" for b'
      by blast
    have "tokenMap F b (w @ rest)
            = (if b \<and> lookahead (e # y @ rest) then F (firstToken w) else firstToken w)
                @ tokenMap F False (e # y @ rest)"
      using tokenMap_unfold [of F b "w @ rest", OF F0] by (simp only: ft at ey append_Cons)
    also have "tokenMap F False (e # y @ rest)
                 = e # tokenMap F (isLeftBoundary e \<or> isLineTerminator e) (y @ rest)"
      by (rule tokenMap_delimiter [where F = F, OF F0 e])
    also have "tokenMap F (isLeftBoundary e \<or> isLineTerminator e) (y @ rest)
                 = tokenMap F (isLeftBoundary e \<or> isLineTerminator e) y @ tokenMap F False rest"
      by (rule IH)
    finally have lhs: "tokenMap F b (w @ rest)
        = (if b \<and> lookahead (e # y) then F (firstToken w) else firstToken w)
            @ e # tokenMap F (isLeftBoundary e \<or> isLineTerminator e) y @ tokenMap F False rest"
      by simp
    have "tokenMap F b w
            = (if b \<and> lookahead (e # y) then F (firstToken w) else firstToken w)
                @ tokenMap F False (e # y)"
      using tokenMap_unfold [of F b w, OF F0] by (simp only: ey)
    also have "tokenMap F False (e # y) = e # tokenMap F (isLeftBoundary e \<or> isLineTerminator e) y"
      by (rule tokenMap_delimiter [where F = F, OF F0 e])
    finally show ?thesis using lhs by simp
  qed
qed

lemma tokenMap_compose:
  assumes F0: "F [] = []" and G0: "G [] = []"
  shows "tokenMap G b (tokenMap F b s) = tokenMap (\<lambda>tok. tokenMap G True (F tok)) b s"
proof (induction s arbitrary: b rule: length_induct)
  case (1 s)
  let ?H = "\<lambda>tok. tokenMap G True (F tok)"
  let ?ok = "b \<and> lookahead (afterToken s)"
  let ?cont = "\<lambda>K. case afterToken s of
                     [] \<Rightarrow> []
                   | d # r \<Rightarrow> d # tokenMap K (isLeftBoundary d \<or> isLineTerminator d) r"
  have H0: "?H [] = []" by (simp add: F0 tokenMap_Nil [where F = G, OF G0])
  have out: "tokenMap F b s = (if ?ok then F (firstToken s) else firstToken s) @ ?cont F"
    by (subst tokenMap.simps) simp
  have outH: "tokenMap ?H b s = (if ?ok then ?H (firstToken s) else firstToken s) @ ?cont ?H"
    by (subst tokenMap.simps) simp
  have la: "lookahead (?cont F) = lookahead (afterToken s)"
    by (cases "afterToken s") auto
  have contD: "?cont F = [] \<or> isDelimiter (hd (?cont F))"
    using afterToken_delimiter [of s] by (cases "afterToken s") auto
  have IH: "tokenMap G b' (tokenMap F b' r) = tokenMap ?H b' r"
    if "afterToken s = d # r" for d r b'
    using 1 afterToken_length [OF that] by blast
  have cont: "tokenMap G False (?cont F) = ?cont ?H"
  proof (cases "afterToken s")
    case Nil
    then show ?thesis by (simp add: tokenMap_Nil [where F = G, OF G0])
  next
    case (Cons d r)
    with afterToken_delimiter [of s] have "isDelimiter d" by simp
    from tokenMap_delimiter [where F = G, OF G0 this] Cons IH [OF Cons] show ?thesis by simp
  qed
  show ?case
  proof (cases ?ok)
    case True
    then have b: "b" and ok: "lookahead (?cont F)" using la by simp_all
    from True have yes: "(b \<and> lookahead (afterToken s)) = True" by blast
    have outT: "tokenMap F b s = F (firstToken s) @ ?cont F"
      using out by (simp only: yes if_True)
    have outHT: "tokenMap ?H b s = ?H (firstToken s) @ ?cont ?H"
      using outH by (simp only: yes if_True)
    have "tokenMap G b (F (firstToken s) @ ?cont F)
            = tokenMap G b (F (firstToken s)) @ tokenMap G False (?cont F)"
      by (rule tokenMap_append [where F = G, OF G0 ok])
    also have "\<dots> = ?H (firstToken s) @ ?cont ?H"
      using b by (simp only: cont eqTrueI [OF b])
    finally show ?thesis by (simp only: outT outHT)
  next
    case False
    from False have no: "(b \<and> lookahead (afterToken s)) = False" by blast
    have outF: "tokenMap F b s = firstToken s @ ?cont F"
      using out by (simp only: no if_False)
    have outHF: "tokenMap ?H b s = firstToken s @ ?cont ?H"
      using outH by (simp only: no if_False)
    have free: "delimiterFree (firstToken s)" by (rule firstToken_free)
    from token_append [OF free contD]
    have tok: "firstToken (firstToken s @ ?cont F) = firstToken s"
      "afterToken (firstToken s @ ?cont F) = ?cont F" by simp_all
    have notok: "(b \<and> lookahead (?cont F)) = False" using no la by blast
    have "tokenMap G b (firstToken s @ ?cont F)
            = (if b \<and> lookahead (?cont F) then G (firstToken s) else firstToken s)
                @ tokenMap G False (?cont F)"
      using tokenMap_unfold [of G b "firstToken s @ ?cont F", OF G0] by (simp only: tok)
    also have "\<dots> = firstToken s @ ?cont ?H"
      by (simp only: notok cont if_False)
    finally show ?thesis by (simp only: outF outHF)
  qed
qed

lemma fold_tokenMap_Nil:
  "\<forall>a \<in> set as. F a [] = [] \<Longrightarrow> fold (\<lambda>a. tokenMap (F a) b) as [] = []"
  by (induction as) (simp_all add: tokenMap_Nil)

lemma fold_tokenMap:
  assumes "\<forall>a \<in> set as. F a [] = []"
  shows "fold (\<lambda>a. tokenMap (F a) b) as s
       = tokenMap (fold (\<lambda>a. tokenMap (F a) True) as) b s"
  using assms
proof (induction as arbitrary: s b)
  case Nil
  show ?case by (simp add: tokenMap_ident)
next
  case (Cons a as)
  let ?Q = "fold (\<lambda>a. tokenMap (F a) True) as"
  from Cons.prems have Fa: "F a [] = []" and rest: "\<forall>a \<in> set as. F a [] = []" by simp_all
  have Q0: "?Q [] = []" using rest by (rule fold_tokenMap_Nil)
  have IH: "fold (\<lambda>a. tokenMap (F a) b') as x = tokenMap ?Q b' x" for b' x
    using Cons.IH [OF rest] .
  have "fold (\<lambda>a. tokenMap (F a) b) (a # as) s = tokenMap ?Q b (tokenMap (F a) b s)"
    by (simp add: IH)
  also have "\<dots> = tokenMap (\<lambda>tok. tokenMap ?Q True (F a tok)) b s"
    by (rule tokenMap_compose [where F = "F a" and G = ?Q, OF Fa Q0])
  also have "\<dots> = tokenMap (fold (\<lambda>a. tokenMap (F a) True) (a # as)) b s"
  proof (rule tokenMap_cong)
    fix tok :: string
    assume "delimiterFree tok"
    then have "tokenMap (F a) True tok = F a tok" by (simp add: tokenMap_token [where F = "F a", OF Fa])
    then show "tokenMap ?Q True (F a tok) = fold (\<lambda>a. tokenMap (F a) True) (a # as) tok"
      by (simp add: IH [symmetric])
  qed
  finally show ?case .
qed

lemma replaceForAlias_tokenMap:
  assumes wf: "list_all (\<lambda>(source, target). source \<noteq> [] \<and> delimiterFree source)
                 (aliasSubstitutions qb a)"
    and resolved: "\<And>md. aliasMetadata a = Some md \<Longrightarrow> \<exists>T. createReplacements md = Inr T"
  shows "replaceForAlias qb a (Inr s)
       = Inr (tokenMap (tokenFunction (aliasSubstitutions qb a)) True s)"
proof (cases "aliasMetadata a")
  case None
  then show ?thesis
    by (simp add: replaceForAlias_def aliasSubstitutions_def tokenMap_ident tokenFunction_Nil)
next
  case (Some md)
  with resolved obtain T where T: "createReplacements md = Inr T" by blast
  let ?pfx = "if aliasNamePrefixingEnabled (expressionMap qb) then aliasName a @ ''.'' else []"
  let ?g = "\<lambda>p. (if aliasNamePrefixingEnabled (expressionMap qb)
                  then escape qb (aliasName a) @ ''.'' else [])
                   @ escape qb (getReplacement T p)"
  let ?keys = "objectKeys T"
  have subs: "aliasSubstitutions qb a = map (\<lambda>k. (?pfx @ k, ?g k)) ?keys"
    using Some T by (simp add: aliasSubstitutions_def)
  show ?thesis
  proof (cases "?keys = []")
    case True
    with subs have "aliasSubstitutions qb a = []" by simp
    with True Some T show ?thesis
      by (simp add: replaceForAlias_def tokenMap_ident tokenFunction_Nil)
  next
    case False
    from wf subs have H: "\<forall>k \<in> set ?keys. ?pfx @ k \<noteq> [] \<and> delimiterFree (?pfx @ k)"
      by (simp add: list_all_iff)
    have "regexReplace ?pfx ?keys (\<lambda>pre k. pre @ ?g k) s
            = tokenMap (tokenFunction (map (\<lambda>k. (?pfx @ k, ?g k)) ?keys)) True s"
      unfolding regexReplace_def by (rule scan_tokenMap [OF H])
    with False Some T subs show ?thesis
      by (simp add: replaceForAlias_def Let_def)
  qed
qed

lemma tokenFunction_empty:
  "list_all (\<lambda>(source, target). source \<noteq> []) subs \<Longrightarrow> tokenFunction subs [] = []"
  using tokenFunction_cases [of subs "[]"] by (auto simp: list_all_iff)

lemma fold_tokenMap_fixed:
  assumes "\<forall>a \<in> set as. F a [] = [] \<and> F a tok = tok" and "delimiterFree tok"
  shows "fold (\<lambda>a. tokenMap (F a) True) as tok = tok"
  using assms(1)
proof (induction as)
  case Nil
  show ?case by simp
next
  case (Cons a as)
  then have "F a [] = []" "F a tok = tok" by simp_all
  with tokenMap_token [where F = "F a" and b = True, OF _ assms(2)]
  have "tokenMap (F a) True tok = tok" by simp
  with Cons show ?case by simp
qed

text \<open>
  C1 (as amended).  \<^verbatim>\<open>replacePropertyNames\<close> is idempotent on every statement for which it
  returns, provided that (i) every alias-prefixed key of a mapped alias is a non-empty
  token, that is, contains no boundary character (space, \<^verbatim>\<open>=\<close>, \<^verbatim>\<open>(\<close>, \<^verbatim>\<open>)\<close>, \<^verbatim>\<open>,\<close>) and
  no line terminator, and (ii) the function is idempotent on each of these alias-prefixed
  keys taken alone as the statement: applying the function to its own output then returns
  that output.  Nothing is asked of the texts that are written.
\<close>

theorem replacePropertyNames_idempotent:
  assumes run: "replacePropertyNames qb statement = Inr t"
    and wf: "keysWellFormed qb"
    and stable: "keysIdempotent qb"
  shows "replacePropertyNames qb t = Inr t"
proof -
  let ?as = "aliases (expressionMap qb)"
  let ?F = "\<lambda>a. tokenFunction (aliasSubstitutions qb a)"
  let ?Q = "fold (\<lambda>a. tokenMap (?F a) True) ?as"
  have sub: "set (aliasSubstitutions qb a) \<subseteq> set (substitutions qb)" if "a \<in> set ?as" for a
    using that by (auto simp: substitutions_def)
  have wfs: "source \<noteq> [] \<and> delimiterFree source"
    if "(source, target) \<in> set (substitutions qb)" for source target
    using wf that by (auto simp: keysWellFormed_def list_all_iff)
  have wfa: "list_all (\<lambda>(source, target). source \<noteq> [] \<and> delimiterFree source)
               (aliasSubstitutions qb a)" if "a \<in> set ?as" for a
    using sub [OF that] wfs by (auto simp: list_all_iff)
  have resolved: "\<exists>T. createReplacements md = Inr T"
    if "a \<in> set ?as" "aliasMetadata a = Some md" for a md
    using run that unfolding replacePropertyNames_def by (rule resolved_of_result)
  have one: "replaceForAlias qb a (Inr s) = Inr (tokenMap (?F a) True s)" if "a \<in> set ?as" for a s
    using replaceForAlias_tokenMap [OF wfa [OF that]] resolved [OF that] by blast
  have all: "replacePropertyNames qb s = Inr (?Q s)" for s
    unfolding replacePropertyNames_def
    using fold_token [of ?as qb ?F s, OF one] by simp
  have F0: "\<forall>a \<in> set ?as. ?F a [] = []"
  proof
    fix a assume "a \<in> set ?as"
    from wfa [OF this] have "list_all (\<lambda>(source, target). source \<noteq> []) (aliasSubstitutions qb a)"
      by (auto simp: list_all_iff)
    then show "?F a [] = []" by (rule tokenFunction_empty)
  qed
  have Q0: "?Q [] = []" using F0 by (rule fold_tokenMap_Nil)
  have Qtok: "?Q s = tokenMap ?Q True s" for s
    using F0 by (rule fold_tokenMap)
  have idem: "?Q (?Q tok) = ?Q tok" if free: "delimiterFree tok" for tok
  proof (cases "tok \<in> fst ` set (substitutions qb)")
    case True
    then obtain target where "(tok, target) \<in> set (substitutions qb)" by auto
    with stable have "case replacePropertyNames qb tok of
                        Inl e \<Rightarrow> True
                      | Inr written \<Rightarrow> replacePropertyNames qb written = Inr written"
      by (auto simp: keysIdempotent_def list_all_iff)
    then show ?thesis by (simp add: all)
  next
    case False
    have "\<forall>a \<in> set ?as. ?F a [] = [] \<and> ?F a tok = tok"
    proof
      fix a assume a: "a \<in> set ?as"
      from tokenFunction_cases [of "aliasSubstitutions qb a" tok] sub [OF a] False
      have "?F a tok = tok" by force
      with F0 a show "?F a [] = [] \<and> ?F a tok = tok" by simp
    qed
    then have "?Q tok = tok" using free by (rule fold_tokenMap_fixed)
    then show ?thesis by simp
  qed
  from run all have t: "t = ?Q statement" by simp
  have "?Q (?Q statement) = tokenMap ?Q True (tokenMap ?Q True statement)"
    using Qtok by metis
  also have "\<dots> = tokenMap (\<lambda>tok. tokenMap ?Q True (?Q tok)) True statement"
    by (rule tokenMap_compose [where F = ?Q and G = ?Q, OF Q0 Q0])
  also have "\<dots> = tokenMap ?Q True statement"
  proof (rule tokenMap_cong)
    fix tok :: string
    assume "delimiterFree tok"
    then have "?Q (?Q tok) = ?Q tok" by (rule idem)
    then show "tokenMap ?Q True (?Q tok) = ?Q tok" using Qtok by metis
  qed
  also have "\<dots> = ?Q statement" using Qtok by metis
  finally show ?thesis using all t by simp
qed

theorem replacePropertyNames_idempotent_witness:
  "replacePropertyNames (postBuilder []) ''(post.id = :id AND post.title=:t)''
     = Inr ''([post].[post_id] = :id AND [post].[title]=:t)''
   \<and> keysWellFormed (postBuilder [])
   \<and> keysIdempotent (postBuilder [])
   \<and> replacePropertyNames (postBuilder []) ''([post].[post_id] = :id AND [post].[title]=:t)''
     = Inr ''([post].[post_id] = :id AND [post].[title]=:t)''"
proof -
  have run: "replacePropertyNames (postBuilder []) ''(post.id = :id AND post.title=:t)''
               = Inr ''([post].[post_id] = :id AND [post].[title]=:t)''"
    by code_simp
  have wf: "keysWellFormed (postBuilder [])"
    by code_simp
  have stable: "keysIdempotent (postBuilder [])"
    by code_simp
  from replacePropertyNames_idempotent [OF run wf stable] run wf stable
  show ?thesis by blast
qed

text \<open>
  C1, the claim as stated, fails in three ways.
  \<^item> Without condition (ii): with escaping off, \<^verbatim>\<open>t.a\<close> is rewritten to \<^verbatim>\<open>t.b\<close>, and
    \<^verbatim>\<open>t.b\<close>, the property path of another column, to \<^verbatim>\<open>t.c\<close>.  The keys are tokens.
  \<^item> Without condition (i), with (ii) in force: \<^verbatim>\<open>t.a c\<close> is rewritten to \<^verbatim>\<open>t.b c\<close>, which
    as a whole is the alias-prefixed key of the relation \<^verbatim>\<open>b c\<close> and is rewritten to
    \<^verbatim>\<open>t.z\<close>.
  \<^item> Without condition (i), with (ii) in force and every key that is not a token written
    back as it stands: in \<^verbatim>\<open>t.y t.a t.b\<close> the key \<^verbatim>\<open>a t.b\<close> covers \<^verbatim>\<open>t.b\<close>; once \<^verbatim>\<open>t.y\<close>
    has become \<^verbatim>\<open>t.z\<close>, the key \<^verbatim>\<open>z t.a\<close> matches first and leaves \<^verbatim>\<open>t.b\<close> to be
    rewritten to \<^verbatim>\<open>t.c\<close>.
\<close>

theorem replacePropertyNames_idempotent_counterexample:
  "replacePropertyNames chainBuilder ''t.a = 1'' = Inr ''t.b = 1''
   \<and> replacePropertyNames chainBuilder ''t.b = 1'' = Inr ''t.c = 1''
   \<and> keysWellFormed chainBuilder
   \<and> \<not> keysIdempotent chainBuilder
   \<and> replacePropertyNames (plainBuilder True [(''t'', spacedMetadata)]) ''t.a c'' = Inr ''t.b c''
   \<and> replacePropertyNames (plainBuilder True [(''t'', spacedMetadata)]) ''t.b c'' = Inr ''t.z''
   \<and> \<not> keysWellFormed (plainBuilder True [(''t'', spacedMetadata)])
   \<and> keysIdempotent (plainBuilder True [(''t'', spacedMetadata)])
   \<and> replacePropertyNames (plainBuilder True [(''t'', selfWrittenMetadata)]) ''t.y t.a t.b''
       = Inr ''t.z t.a t.b''
   \<and> replacePropertyNames (plainBuilder True [(''t'', selfWrittenMetadata)]) ''t.z t.a t.b''
       = Inr ''t.z t.a t.c''
   \<and> \<not> keysWellFormed (plainBuilder True [(''t'', selfWrittenMetadata)])
   \<and> keysIdempotent (plainBuilder True [(''t'', selfWrittenMetadata)])"
  by code_simp

section \<open>The identity compiler: properties\<close>

lemma showNat_0: "showNat 0 = ''0''"
  by (simp add: showNat.simps digit_def)

lemma connection_setNativeParameter [simp]:
  "connection (setNativeParameter qb k v) = connection qb"
  by (simp add: setNativeParameter_def withExpressionMap_def)

lemma bindRealParameterValues_closed:
  "bindRealParameterValues name base i vs (qb, n)
     = (map (\<lambda>j. createParameter (driver (connection qb)) (name @ showNat (base + (i + j))) (n + j))
          [0..<length vs],
        fold (\<lambda>j q. setNativeParameter q (name @ showNat (base + (i + j))) (vs ! j))
          [0..<length vs] qb,
        n + length vs)"
proof (induction vs arbitrary: i qb n)
  case Nil
  show ?case by simp
next
  case (Cons v vs)
  have upt: "[0..<length (v # vs)] = 0 # map Suc [0..<length vs]"
    by (simp add: upt_conv_Cons map_Suc_upt del: upt_Suc)
  show ?case
    unfolding upt
    by (simp add: Cons.IH fold_map comp_def Let_def del: upt_Suc)
qed

text \<open>
  C3 (as amended).  Let the main alias carry entity metadata with exactly one primary
  column, no embedded identity and no transformer on that primary column, and let the list
  of identities be non-empty.  The identities are normalised by \<^verbatim>\<open>ensureEntityIdMap\<close>,
  read through the primary column and handed to the \<^verbatim>\<open>In\<close> helper, and the condition
  \<^verbatim>\<open>{<primary property>: In(values)}\<close> is compiled by \<^verbatim>\<open>computeWhereParameter\<close>.  Both the
  metadata and the \<^verbatim>\<open>In\<close> helper are imported from other modules, so the result depends
  on what they return.  Suppose that
  \<^item> the metadata gives the primary property as the only property path of this
    condition (\<^verbatim>\<open>createPropertyPath\<close>), finds exactly one column for that path
    (\<^verbatim>\<open>findColumnsWithPropertyPath\<close>), and this column reads the descriptor back from the
    condition (\<^verbatim>\<open>getEntityValue\<close>);
  \<^item> the \<^verbatim>\<open>In\<close> helper returns a descriptor of type \<^verbatim>\<open>in\<close> that uses parameters, has no
    object-literal parameters and holds the list it was given.

  Then \<^verbatim>\<open>createWhereIdsExpression\<close> returns one set-membership predicate
  \<^verbatim>\<open><alias path> IN (...)\<close>, never a disjunction of equality comparisons: when the
  descriptor spreads its payload (\<^verbatim>\<open>multipleParameters\<close>) there is one placeholder and one
  native parameter per identity, named \<^verbatim>\<open>where_0_0_0\<close> followed by a running number;
  otherwise there is a single placeholder bound to the whole array.
\<close>

theorem createWhereIds_fast_path:
  assumes main: "mainAlias (expressionMap qb) = Some a"
    and md: "aliasMetadata a = Some md"
    and single: "\<not> hasMultiplePrimaryKeys md" "embeddeds md = []"
    and primary: "primaryColumns md = primaryColumn # others"
    and plain: "\<not> transformer primaryColumn"
    and ids: "ids \<noteq> []"
    and vals: "vals = map (\<lambda>entityId. getEntityValue primaryColumn entityId False)
                        (map (ensureEntityIdMap md) ids)"
    and obj: "whereObject = [(propertyName primaryColumn, JFindOperator (In vals))]"
    and op: "type (In vals) = ''in''" "useParameter (In vals)"
            "objectLiteralParameters (In vals) = None" "operatorValue (In vals) = JArray vals"
    and paths: "createPropertyPath md (JObject whereObject) = [propertyName primaryColumn]"
    and cols: "findColumnsWithPropertyPath md (propertyName primaryColumn) = [column]"
    and held: "getEntityValue column (JObject whereObject) True = JFindOperator (In vals)"
    and aliasPath: "aliasPath = (if aliasNamePrefixingEnabled (expressionMap qb)
                                 then aliasName a @ ''.'' @ propertyName primaryColumn
                                 else propertyPath column)"
    and base: "base = length (filter (\<lambda>x. startsWith x ''where_0_0_0'') (nativeParameterKeys qb))"
  shows "(multipleParameters (In vals) \<longrightarrow>
            createWhereIdsExpression In qb (JArray ids)
              = Inr (Some (aliasPath @ '' IN (''
                       @ join '', ''
                           (map (\<lambda>i. createParameter (driver (connection qb))
                                        (''where_0_0_0'' @ showNat (base + i))
                                        (length (nativeParameterKeys qb) + i))
                              [0..<length ids])
                       @ '')''),
                     fold (\<lambda>i q. setNativeParameter q (''where_0_0_0'' @ showNat (base + i)) (vals ! i))
                       [0..<length ids] qb))
       \<and> (\<not> multipleParameters (In vals) \<longrightarrow>
            createWhereIdsExpression In qb (JArray ids)
              = Inr (Some (aliasPath @ '' IN (''
                       @ createParameter (driver (connection qb))
                           (''where_0_0_0'' @ showNat base) (length (nativeParameterKeys qb))
                       @ '')''),
                     setNativeParameter qb (''where_0_0_0'' @ showNat base) (JArray vals)))"
proof -
  let ?n0 = "length (nativeParameterKeys qb)"
  have len: "length vals = length ids" using vals by simp
  have bind: "bindOperator (In vals) ''where_0_0_0'' (qb, ?n0)
      = (if multipleParameters (In vals)
         then Inr (map (\<lambda>i. createParameter (driver (connection qb))
                              (''where_0_0_0'' @ showNat (base + i)) (?n0 + i))
                     [0..<length ids],
                   fold (\<lambda>i q. setNativeParameter q (''where_0_0_0'' @ showNat (base + i)) (vals ! i))
                     [0..<length ids] qb,
                   ?n0 + length ids)
         else Inr ([createParameter (driver (connection qb)) (''where_0_0_0'' @ showNat base) ?n0],
                   setNativeParameter qb (''where_0_0_0'' @ showNat base) (JArray vals),
                   Suc ?n0))"
    using op base len
    by (simp add: bindOperator_def realParameterValues_def bindRealParameterValues_closed Let_def)
  have nonempty: "map (\<lambda>i. createParameter (driver (connection qb))
                              (''where_0_0_0'' @ showNat (base + i)) (?n0 + i))
                     [0..<length ids] \<noteq> []"
    using ids by simp
  have column: "whereColumn a whereObject 0 (propertyName primaryColumn) 0 0 column (qb, ?n0)
      = (if multipleParameters (In vals)
         then Inr (aliasPath @ '' IN (''
                     @ join '', ''
                         (map (\<lambda>i. createParameter (driver (connection qb))
                                      (''where_0_0_0'' @ showNat (base + i)) (?n0 + i))
                            [0..<length ids])
                     @ '')'',
                   fold (\<lambda>i q. setNativeParameter q (''where_0_0_0'' @ showNat (base + i)) (vals ! i))
                     [0..<length ids] qb,
                   ?n0 + length ids)
         else Inr (aliasPath @ '' IN (''
                     @ createParameter (driver (connection qb)) (''where_0_0_0'' @ showNat base) ?n0
                     @ '')'',
                   setNativeParameter qb (''where_0_0_0'' @ showNat base) (JArray vals),
                   Suc ?n0))"
    using held aliasPath op(1) nonempty
    by (simp add: whereColumn_def showNat_0 bind computeFindOperatorExpression.simps Let_def
             del: upt_Suc)
  have whole: "whereRecord a md 0 whereObject (qb, ?n0)
      = whereColumn a whereObject 0 (propertyName primaryColumn) 0 0 column (qb, ?n0)"
    using paths cols
    by (simp add: whereRecord_def wherePropertyPath_def column del: upt_Suc)
  have cwp: "computeWhereParameter qb (WhereObject whereObject)
      = (case whereColumn a whereObject 0 (propertyName primaryColumn) 0 0 column (qb, ?n0) of
           Inl e \<Rightarrow> Inl e
         | Inr (expression, st) \<Rightarrow> Inr (expression, fst st))"
    using main md
    by (simp add: computeWhereObjects_def whole column joinAndConditions_def del: upt_Suc)
  have fast: "createWhereIdsExpression In qb (JArray ids)
      = (case computeWhereParameter qb (WhereObject whereObject) of
           Inl e \<Rightarrow> Inl e
         | Inr (expression, qb') \<Rightarrow> Inr (Some expression, qb'))"
    using main md single primary plain unfolding vals obj
    by (simp add: createWhereIdsExpression_def)
  show ?thesis
    unfolding fast cwp by (simp add: column del: upt_Suc)
qed

theorem createWhereIds_fast_path_witness:
  "(\<exists>qb'. createWhereIdsExpression spreadingIn (idsBuilder False)
             (JArray [JNumber 5, JNumber 6, JNumber 7])
           = Inr (Some ''post.id IN (:where_0_0_00, :where_0_0_01, :where_0_0_02)'', qb')
        \<and> nativeParameterList qb'
           = [(''where_0_0_00'', ''5''), (''where_0_0_01'', ''6''), (''where_0_0_02'', ''7'')])
   \<and> (\<exists>qb'. createWhereIdsExpression arrayIn (idsBuilder False)
             (JArray [JNumber 5, JNumber 6, JNumber 7])
           = Inr (Some ''post.id IN (:where_0_0_00)'', qb')
        \<and> nativeParameterList qb' = [(''where_0_0_00'', ''5,6,7'')])"
proof -
  let ?qb = "idsBuilder False"
  let ?md = "idsMetadata False"
  let ?a = "\<lparr>aliasName = ''post'', aliasMetadata = Some ?md\<rparr>"
  let ?pc = "ColumnMetadata ''post_id'' ''id'' ''id'' None False
               (getEntityValue (exampleColumn ''id'' ''post_id''))"
  let ?ids = "[JNumber 5, JNumber 6, JNumber 7]"
  let ?vals = "map (\<lambda>entityId. getEntityValue ?pc entityId False) (map (ensureEntityIdMap ?md) ?ids)"
  let ?col = "exampleColumn ''id'' ''post_id''"
  have main: "mainAlias (expressionMap ?qb) = Some ?a"
    by (simp add: idsBuilder_def exampleExpressionMap_def)
  have md: "aliasMetadata ?a = Some ?md" by simp
  have single: "\<not> hasMultiplePrimaryKeys ?md" "embeddeds ?md = []"
    by (simp_all add: idsMetadata_def)
  have primary: "primaryColumns ?md = ?pc # []" by (simp add: idsMetadata_def)
  have plain: "\<not> transformer ?pc" by simp
  have ids: "?ids \<noteq> []" by simp
  have vals: "?vals = ?ids"
    by (simp add: idsMetadata_def exampleColumn_def getProperty_def)
  have paths: "createPropertyPath ?md (JObject [(propertyName ?pc, JFindOperator (In ?vals))])
                 = [propertyName ?pc]" for In
    by (simp add: idsMetadata_def objectKeys_def isArrayIndex_def isDigit_def)
  have cols: "findColumnsWithPropertyPath ?md (propertyName ?pc) = [?col]"
    by (simp add: idsMetadata_def exampleColumn_def)
  have held: "getEntityValue ?col (JObject [(propertyName ?pc, JFindOperator (In ?vals))]) True
                = JFindOperator (In ?vals)" for In
    by (simp add: exampleColumn_def getProperty_def)
  have pfx: "aliasNamePrefixingEnabled (expressionMap ?qb)"
    by (simp add: idsBuilder_def exampleExpressionMap_def)
  have keys: "nativeParameterKeys ?qb = []"
    by (simp add: nativeParameterKeys_def idsBuilder_def exampleExpressionMap_def objectKeys_def)
  have drv: "createParameter (driver (connection ?qb)) = (\<lambda>name index. CHR '':'' # name)"
    by (simp add: idsBuilder_def exampleConnection_def exampleDriver_def)
  have digits: "showNat 0 = ''0''" "showNat (Suc 0) = ''1''" "showNat 2 = ''2''"
    by (simp_all add: showNat.simps digit_def)
  from createWhereIds_fast_path [of ?qb ?a ?md ?pc "[]" ?ids _ _ spreadingIn ?col,
         OF main md single primary plain ids refl refl _ _ _ _
            paths [of spreadingIn] cols held [of spreadingIn] refl refl]
  have multi: "createWhereIdsExpression spreadingIn ?qb (JArray ?ids)
      = Inr (Some ''post.id IN (:where_0_0_00, :where_0_0_01, :where_0_0_02)'',
             fold (\<lambda>i q. setNativeParameter q (''where_0_0_0'' @ showNat i) (?ids ! i)) [0..<3] ?qb)"
    using pfx keys drv digits vals
    by (simp add: spreadingIn_def upt_rec numeral_2_eq_2 numeral_3_eq_3)
  have "nativeParameterList
          (fold (\<lambda>i q. setNativeParameter q (''where_0_0_0'' @ showNat i) (?ids ! i)) [0..<3] ?qb)
        = [(''where_0_0_00'', ''5''), (''where_0_0_01'', ''6''), (''where_0_0_02'', ''7'')]"
    by code_simp
  with multi have 1: "\<exists>qb'. createWhereIdsExpression spreadingIn (idsBuilder False)
             (JArray [JNumber 5, JNumber 6, JNumber 7])
           = Inr (Some ''post.id IN (:where_0_0_00, :where_0_0_01, :where_0_0_02)'', qb')
        \<and> nativeParameterList qb'
           = [(''where_0_0_00'', ''5''), (''where_0_0_01'', ''6''), (''where_0_0_02'', ''7'')]"
    by blast
  from createWhereIds_fast_path [of ?qb ?a ?md ?pc "[]" ?ids _ _ arrayIn ?col,
         OF main md single primary plain ids refl refl _ _ _ _
            paths [of arrayIn] cols held [of arrayIn] refl refl]
  have single: "createWhereIdsExpression arrayIn ?qb (JArray ?ids)
      = Inr (Some ''post.id IN (:where_0_0_00)'',
             setNativeParameter ?qb ''where_0_0_00'' (JArray ?ids))"
    using pfx keys drv digits vals
    by (simp add: arrayIn_def)
  have "nativeParameterList (setNativeParameter ?qb ''where_0_0_00'' (JArray ?ids))
        = [(''where_0_0_00'', ''5,6,7'')]"
    by code_simp
  with single have 2: "\<exists>qb'. createWhereIdsExpression arrayIn (idsBuilder False)
             (JArray [JNumber 5, JNumber 6, JNumber 7])
           = Inr (Some ''post.id IN (:where_0_0_00)'', qb')
        \<and> nativeParameterList qb' = [(''where_0_0_00'', ''5,6,7'')]"
    by blast
  from 1 2 show ?thesis by blast
qed

text \<open>
  C3, the claim as stated.  Each of the three entities has exactly one primary column and
  no embedded identity, and the identities are [5, 6, 7].
  \<^item> When the primary column has a transformer the fast path is not taken: the result is
    a disjunction of three equality comparisons with one parameter each.
  \<^item> When the primary column reads a nested property, what it reads from the generated
    condition is not the descriptor: the result is one equality comparison.
  \<^item> When no column has the primary property as its property path, the compilation
    fails with \<^verbatim>\<open>EntityColumnNotFound\<close>.

  Without the transformer, and with metadata that leads back to the descriptor, the same
  identities compile to one \<^verbatim>\<open>IN\<close> predicate.
\<close>

theorem createWhereIds_fast_path_counterexample:
  "compiledIds (createWhereIdsExpression spreadingIn (idsBuilder True)
                  (JArray [JNumber 5, JNumber 6, JNumber 7]))
     = Inr (Some ''(([post].[post_id] = :id_0_0) OR ([post].[post_id] = :id_1_0) OR ([post].[post_id] = :id_2_0))'',
            [(''id_0_0'', ''5''), (''id_1_0'', ''6''), (''id_2_0'', ''7'')])
   \<and> compiledIds (createWhereIdsExpression spreadingIn strayBuilder
                  (JArray [JNumber 5, JNumber 6, JNumber 7]))
     = Inr (Some ''pet.owner = :where_0_0_0'', [(''where_0_0_0'', ''undefined'')])
   \<and> compiledIds (createWhereIdsExpression spreadingIn unresolvedBuilder
                  (JArray [JNumber 5, JNumber 6, JNumber 7]))
     = Inl (EntityColumnNotFound ''id'')
   \<and> compiledIds (createWhereIdsExpression spreadingIn (idsBuilder False)
                  (JArray [JNumber 5, JNumber 6, JNumber 7]))
     = Inr (Some ''post.id IN (:where_0_0_00, :where_0_0_01, :where_0_0_02)'',
            [(''where_0_0_00'', ''5''), (''where_0_0_01'', ''6''), (''where_0_0_02'', ''7'')])"
  by code_simp

section \<open>The structured-condition compiler: parameter names\<close>

lemma expressionMap_setNativeParameter [simp]:
  "aliasNamePrefixingEnabled (expressionMap (setNativeParameter qb k v))
     = aliasNamePrefixingEnabled (expressionMap qb)"
  by (simp add: setNativeParameter_def withExpressionMap_def)

lemma whereColumn_plain:
  assumes "getEntityValue column (JObject w) True \<noteq> JNull"
    and "\<forall>operator. getEntityValue column (JObject w) True \<noteq> JFindOperator operator"
  shows "whereColumn a w whereIndex path propertyIndex columnIndex column (qb, n)
     = Inr ((if aliasNamePrefixingEnabled (expressionMap qb)
             then aliasName a @ ''.'' @ path else propertyPath column) @ '' = ''
              @ createParameter (driver (connection qb))
                  (''where_'' @ showNat whereIndex @ ''_'' @ showNat propertyIndex
                     @ ''_'' @ showNat columnIndex) n,
            setNativeParameter qb
              (''where_'' @ showNat whereIndex @ ''_'' @ showNat propertyIndex
                 @ ''_'' @ showNat columnIndex)
              (getEntityValue column (JObject w) True),
            Suc n)"
  using assms
  by (cases "getEntityValue column (JObject w) True") (simp_all add: whereColumn_def Let_def)

lemma whereColumns_plain:
  assumes "\<forall>column \<in> set cols.
             getEntityValue column (JObject w) True \<noteq> JNull
             \<and> (\<forall>operator. getEntityValue column (JObject w) True \<noteq> JFindOperator operator)"
  shows "mapIndexed (whereColumn a w whereIndex path propertyIndex) i cols (qb, n)
     = Inr (map (\<lambda>j. (if aliasNamePrefixingEnabled (expressionMap qb)
                       then aliasName a @ ''.'' @ path else propertyPath (cols ! j)) @ '' = ''
                        @ createParameter (driver (connection qb))
                            (''where_'' @ showNat whereIndex @ ''_'' @ showNat propertyIndex
                               @ ''_'' @ showNat (i + j)) (n + j))
              [0..<length cols],
            fold (\<lambda>j q. setNativeParameter q
                            (''where_'' @ showNat whereIndex @ ''_'' @ showNat propertyIndex
                               @ ''_'' @ showNat (i + j))
                            (getEntityValue (cols ! j) (JObject w) True))
              [0..<length cols] qb,
            n + length cols)"
  using assms
proof (induction cols arbitrary: i qb n)
  case Nil
  show ?case by simp
next
  case (Cons c cs)
  have upt: "[0..<length (c # cs)] = 0 # map Suc [0..<length cs]"
    by (simp add: upt_conv_Cons map_Suc_upt del: upt_Suc)
  have tail: "\<forall>column \<in> set cs.
             getEntityValue column (JObject w) True \<noteq> JNull
             \<and> (\<forall>operator. getEntityValue column (JObject w) True \<noteq> JFindOperator operator)"
    using Cons.prems by simp
  have head: "getEntityValue c (JObject w) True \<noteq> JNull"
    "\<forall>operator. getEntityValue c (JObject w) True \<noteq> JFindOperator operator"
    using Cons.prems by simp_all
  show ?case
    unfolding upt
    by (simp add: whereColumn_plain [OF head] Cons.IH [OF tail] fold_map comp_def del: upt_Suc)
qed


lemma whereColumn_lessThan:
  assumes "getEntityValue column (JObject w) True = JFindOperator operator"
    and "type operator = ''lessThan''" and "useParameter operator"
    and "objectLiteralParameters operator = None" and "\<not> multipleParameters operator"
  shows "whereColumn a w whereIndex path propertyIndex columnIndex column (qb, n)
     = Inr ((if aliasNamePrefixingEnabled (expressionMap qb)
             then aliasName a @ ''.'' @ path else propertyPath column) @ '' < ''
              @ createParameter (driver (connection qb))
                  (''where_'' @ showNat whereIndex @ ''_'' @ showNat propertyIndex
                     @ ''_'' @ showNat columnIndex
                     @ showNat (length (filter (\<lambda>x. startsWith x
                          (''where_'' @ showNat whereIndex @ ''_'' @ showNat propertyIndex
                             @ ''_'' @ showNat columnIndex)) (nativeParameterKeys qb)))) n,
            setNativeParameter qb
              (''where_'' @ showNat whereIndex @ ''_'' @ showNat propertyIndex
                 @ ''_'' @ showNat columnIndex
                 @ showNat (length (filter (\<lambda>x. startsWith x
                      (''where_'' @ showNat whereIndex @ ''_'' @ showNat propertyIndex
                         @ ''_'' @ showNat columnIndex)) (nativeParameterKeys qb))))
              (operatorValue operator),
            Suc n)"
  using assms
  by (simp add: whereColumn_def bindOperator_def realParameterValues_def Let_def
        computeFindOperatorExpression.simps parameterAt_def)

text \<open>C7. Generated parameter names are not pairwise distinct, and a generated name can
  overwrite an entry of the native-parameter store.
  \<^item> Within one call of \<^verbatim>\<open>computeWhereParameter\<close> on an empty store: the value of an
    operator is stored under the column's name followed, with no separator, by the number of
    entries that already start with that name.  For column 1 of the eleven-column path this is
    \<^verbatim>\<open>where_0_0_1\<close> followed by \<^verbatim>\<open>0\<close>, the very name \<^verbatim>\<open>where_0_0_10\<close> of column 10:
    eleven placeholders are written, ten entries are stored, and the placeholder of the
    less-than comparison ends up bound to 10 instead of 7.
  \<^item> Across two calls on the same builder: every call numbers its conditions from 0, and
    the branch for plain values stores under the bare name, so the second condition
    overwrites the entry \<^verbatim>\<open>where_0_0_0\<close> of the first one.
  \<^item> The operator branch, which does count the entries that exist, keeps the two
    apart in the same situation (\<^verbatim>\<open>where_0_0_00\<close> and \<^verbatim>\<open>where_0_0_01\<close>).\<close>

theorem parameter_names_collide:
  "compiled (computeWhereParameter petBuilder (WhereObject ownerCondition))
     = Some (''pet.owner = :where_0_0_0 AND pet.owner < :where_0_0_10 AND pet.owner = :where_0_0_2 AND pet.owner = :where_0_0_3 AND pet.owner = :where_0_0_4 AND pet.owner = :where_0_0_5 AND pet.owner = :where_0_0_6 AND pet.owner = :where_0_0_7 AND pet.owner = :where_0_0_8 AND pet.owner = :where_0_0_9 AND pet.owner = :where_0_0_10'',
             [(''where_0_0_0'', ''0''), (''where_0_0_10'', ''10''), (''where_0_0_2'', ''2''),
              (''where_0_0_3'', ''3''), (''where_0_0_4'', ''4''), (''where_0_0_5'', ''5''),
              (''where_0_0_6'', ''6''), (''where_0_0_7'', ''7''), (''where_0_0_8'', ''8''),
              (''where_0_0_9'', ''9'')])
   \<and> compiled (computeWhereParameter (idsBuilder False) (WhereObject [(''id'', JNumber 1)]))
     = Some (''post.id = :where_0_0_0'', [(''where_0_0_0'', ''1'')])
   \<and> compiled (thenWhere (computeWhereParameter (idsBuilder False) (WhereObject [(''id'', JNumber 1)]))
                 (WhereObject [(''title'', JString ''x'')]))
     = Some (''post.title = :where_0_0_0'', [(''where_0_0_0'', ''x'')])
   \<and> compiled (thenWhere (computeWhereParameter (idsBuilder False)
                            (WhereObject [(''id'', JFindOperator (lessThanOperator (JNumber 1)))]))
                 (WhereObject [(''title'', JFindOperator (lessThanOperator (JString ''x'')))]))
     = Some (''post.title < :where_0_0_01'', [(''where_0_0_00'', ''1''), (''where_0_0_01'', ''x'')])"
proof -
  let ?md = "exampleMetadata (map ownerColumn [0..<11])"
  let ?a = "\<lparr>aliasName = ''pet'', aliasMetadata = Some ?md\<rparr>"
  let ?w = "ownerCondition"
  let ?f = "whereColumn ?a ?w 0 ''owner'' 0"
  let ?q1 = "setNativeParameter petBuilder ''where_0_0_0'' (JNumber 0)"
  let ?q2 = "setNativeParameter ?q1 ''where_0_0_10'' (JNumber 7)"
  let ?rest = "map ownerColumn [2..<11]"
  let ?q3 = "fold (\<lambda>j q. setNativeParameter q
                 (''where_'' @ showNat 0 @ ''_'' @ showNat 0 @ ''_'' @ showNat (2 + j))
                 (getEntityValue (?rest ! j) (JObject ?w) True)) [0..<length ?rest] ?q2"
  let ?tail = "map (\<lambda>j. (if aliasNamePrefixingEnabled (expressionMap ?q2)
                       then aliasName ?a @ ''.'' @ ''owner'' else propertyPath (?rest ! j)) @ '' = ''
                        @ createParameter (driver (connection ?q2))
                            (''where_'' @ showNat 0 @ ''_'' @ showNat 0 @ ''_'' @ showNat (2 + j)) (2 + j))
                 [0..<length ?rest]"
  have main: "mainAlias (expressionMap petBuilder) = Some ?a"
    by (simp add: petBuilder_def exampleExpressionMap_def)
  have keys: "nativeParameterKeys petBuilder = []"
    by (simp add: nativeParameterKeys_def petBuilder_def exampleExpressionMap_def objectKeys_def)
  have keys1: "filter (\<lambda>x. startsWith x ''where_0_0_1'') (nativeParameterKeys ?q1) = []"
    by code_simp
  have pfx: "aliasNamePrefixingEnabled (expressionMap petBuilder)"
    by (simp add: petBuilder_def exampleExpressionMap_def)
  have drv: "createParameter (driver (connection petBuilder)) = (\<lambda>name index. CHR '':'' # name)"
    by (simp add: petBuilder_def exampleConnection_def exampleDriver_def)
  have digits: "showNat 0 = ''0''" "showNat (Suc 0) = ''1''"
    by (simp_all add: showNat.simps digit_def)
  have paths: "createPropertyPath ?md (JObject ?w) = [''owner'']"
    by (simp add: exampleMetadata_def ownerCondition_def objectKeys_def isArrayIndex_def isDigit_def)
  have owner: "propertyPath (ownerColumn i) = ''owner''" for i
    by (simp add: ownerColumn_def)
  have upt: "[0..<11] = 0 # Suc 0 # [2..<11]"
    by (simp add: upt_conv_Cons numeral_2_eq_2)
  have cols: "findColumnsWithPropertyPath ?md ''owner''
                = ownerColumn 0 # ownerColumn (Suc 0) # ?rest"
    unfolding upt by (simp add: exampleMetadata_def owner del: upt_Suc)
  have v0: "getEntityValue (ownerColumn 0) (JObject ?w) True = JNumber 0"
    by (simp add: ownerColumn_def ownerCondition_def getProperty_def upt_rec showNat.simps digit_def)
  have v1: "getEntityValue (ownerColumn (Suc 0)) (JObject ?w) True = JFindOperator (lessThanOperator (JNumber 7))"
    by (simp add: ownerColumn_def ownerCondition_def getProperty_def upt_rec showNat.simps digit_def)
  have vs: "\<forall>column \<in> set ?rest.
             getEntityValue column (JObject ?w) True \<noteq> JNull
             \<and> (\<forall>operator. getEntityValue column (JObject ?w) True \<noteq> JFindOperator operator)"
    by (simp add: ownerColumn_def ownerCondition_def getProperty_def upt_rec showNat.simps digit_def)
  have c0: "?f 0 (ownerColumn 0) (petBuilder, 0) = Inr (''pet.owner = :where_0_0_0'', ?q1, Suc 0)"
    using whereColumn_plain [of "ownerColumn 0" ?w ?a 0 "''owner''" 0 0 petBuilder 0]
    by (simp add: v0 pfx drv digits)
  have c1: "?f (Suc 0) (ownerColumn (Suc 0)) (?q1, Suc 0) = Inr (''pet.owner < :where_0_0_10'', ?q2, 2)"
    using whereColumn_lessThan [of "ownerColumn (Suc 0)" ?w "lessThanOperator (JNumber 7)" ?a 0 "''owner''" 0 "Suc 0" ?q1 "Suc 0"]
    by (simp add: v1 pfx drv digits keys1 lessThanOperator_def)
  have rest: "mapIndexed ?f 2 ?rest (?q2, 2) = Inr (?tail, ?q3, 2 + length ?rest)"
    by (rule whereColumns_plain [OF vs])
  have all: "mapIndexed ?f 0 (ownerColumn 0 # ownerColumn (Suc 0) # ?rest) (petBuilder, 0)
               = Inr (''pet.owner = :where_0_0_0'' # ''pet.owner < :where_0_0_10'' # ?tail,
                      ?q3, 2 + length ?rest)"
    using c0 c1 rest by (simp add: numeral_2_eq_2)
  have path: "wherePropertyPath ?a ?md ?w 0 0 ''owner'' (petBuilder, 0)
               = Inr (join '' AND '' (filter (\<lambda>expression. expression \<noteq> [])
                        (''pet.owner = :where_0_0_0'' # ''pet.owner < :where_0_0_10'' # ?tail)),
                      ?q3, 2 + length ?rest)"
    unfolding wherePropertyPath_def cols all by simp
  have rendered: "join '' AND '' (filter (\<lambda>expression. expression \<noteq> [])
                        (''pet.owner = :where_0_0_0'' # ''pet.owner < :where_0_0_10'' # ?tail))
     = ''pet.owner = :where_0_0_0 AND pet.owner < :where_0_0_10 AND pet.owner = :where_0_0_2 AND pet.owner = :where_0_0_3 AND pet.owner = :where_0_0_4 AND pet.owner = :where_0_0_5 AND pet.owner = :where_0_0_6 AND pet.owner = :where_0_0_7 AND pet.owner = :where_0_0_8 AND pet.owner = :where_0_0_9 AND pet.owner = :where_0_0_10''"
    by code_simp
  have store: "nativeParameterList ?q3
     = [(''where_0_0_0'', ''0''), (''where_0_0_10'', ''10''), (''where_0_0_2'', ''2''),
        (''where_0_0_3'', ''3''), (''where_0_0_4'', ''4''), (''where_0_0_5'', ''5''),
        (''where_0_0_6'', ''6''), (''where_0_0_7'', ''7''), (''where_0_0_8'', ''8''),
        (''where_0_0_9'', ''9'')]"
    by code_simp
  have whole: "whereRecord ?a ?md 0 ?w (petBuilder, 0)
     = Inr (''pet.owner = :where_0_0_0 AND pet.owner < :where_0_0_10 AND pet.owner = :where_0_0_2 AND pet.owner = :where_0_0_3 AND pet.owner = :where_0_0_4 AND pet.owner = :where_0_0_5 AND pet.owner = :where_0_0_6 AND pet.owner = :where_0_0_7 AND pet.owner = :where_0_0_8 AND pet.owner = :where_0_0_9 AND pet.owner = :where_0_0_10'',
            ?q3, 2 + length ?rest)"
    unfolding whereRecord_def paths by (simp add: path [unfolded rendered] del: upt_Suc)
  have single: "compiled (computeWhereParameter petBuilder (WhereObject ownerCondition))
     = Some (''pet.owner = :where_0_0_0 AND pet.owner < :where_0_0_10 AND pet.owner = :where_0_0_2 AND pet.owner = :where_0_0_3 AND pet.owner = :where_0_0_4 AND pet.owner = :where_0_0_5 AND pet.owner = :where_0_0_6 AND pet.owner = :where_0_0_7 AND pet.owner = :where_0_0_8 AND pet.owner = :where_0_0_9 AND pet.owner = :where_0_0_10'',
             nativeParameterList ?q3)"
    by (simp add: compiled_def computeWhereObjects_def main keys whole joinAndConditions_def
          del: upt_Suc)
  have first: "compiled (computeWhereParameter (idsBuilder False) (WhereObject [(''id'', JNumber 1)]))
     = Some (''post.id = :where_0_0_0'', [(''where_0_0_0'', ''1'')])"
    by code_simp
  have second: "compiled (thenWhere (computeWhereParameter (idsBuilder False) (WhereObject [(''id'', JNumber 1)]))
                 (WhereObject [(''title'', JString ''x'')]))
     = Some (''post.title = :where_0_0_0'', [(''where_0_0_0'', ''x'')])"
    by code_simp
  have operators: "compiled (thenWhere (computeWhereParameter (idsBuilder False)
                            (WhereObject [(''id'', JFindOperator (lessThanOperator (JNumber 1)))]))
                 (WhereObject [(''title'', JFindOperator (lessThanOperator (JString ''x'')))]))
     = Some (''post.title < :where_0_0_01'', [(''where_0_0_00'', ''1''), (''where_0_0_01'', ''x'')])"
    by code_simp
  show ?thesis
    unfolding single store first second operators by simp
qed

end
